theory Spec2Isabelle
  imports Main "HOL-Library.Multiset"
begin

section \<open>Python values and exceptions\<close>

text \<open>
  The exceptions the modelled code can raise. \<open>PluginError\<close> stands for any other
  exception an extraction function raises. \<open>DuplicateArtifactName\<close> and
  \<open>UnknownArtifact\<close> are the plugin loader's two conditions.
\<close>

datatype py_exn =
    TypeError | ValueError | KeyError | IndexError | AttributeError | OverflowError
  | FileExistsError | FileNotFoundError | NotADirectoryError
  | DuplicateArtifactName | UnknownArtifact
  | PluginError string

text \<open>
  The values an extraction function puts into its records. A \<open>datetime\<close> is a
  naive timestamp, kept as microseconds from 1970-01-01T00:00:00. Strings are ASCII (URLs,
  identifiers); floats are not modelled.
\<close>

datatype pyvalue =
    PNone
  | PBool bool
  | PInt int
  | PStr string
  | PDatetime int
  | PList "pyvalue list"
  | PDict "(string \<times> pyvalue) list"

type_synonym pydict = "(string \<times> pyvalue) list"

text \<open>Truth value of an object, as \<open>not x\<close> and \<open>if x\<close> test it.\<close>

fun truthy :: "pyvalue \<Rightarrow> bool" where
  "truthy PNone = False"
| "truthy (PBool b) = b"
| "truthy (PInt i) = (i \<noteq> 0)"
| "truthy (PStr s) = (s \<noteq> [])"
| "truthy (PDatetime t) = True"
| "truthy (PList xs) = (xs \<noteq> [])"
| "truthy (PDict kvs) = (kvs \<noteq> [])"

text \<open>\<open>d[k]\<close>: the value under a key, \<open>KeyError\<close> when the key is absent.\<close>

definition dict_getitem :: "pydict \<Rightarrow> string \<Rightarrow> py_exn + pyvalue" where
  "dict_getitem d k = (case map_of d k of None \<Rightarrow> Inl KeyError | Some v \<Rightarrow> Inr v)"

subsection \<open>Decimal numerals\<close>

fun digit_char :: "nat \<Rightarrow> char" where
  "digit_char n = char_of (48 + n)"

function str_nat :: "nat \<Rightarrow> string" where
  "str_nat n = (if n < 10 then [digit_char n] else str_nat (n div 10) @ [digit_char (n mod 10)])"
  by pat_completeness auto
termination
  by (relation "measure (\<lambda>n. n)") auto

definition str_int :: "int \<Rightarrow> string" where
  "str_int i = (if i < 0 then CHR ''-'' # str_nat (nat (- i)) else str_nat (nat i))"

section \<open>Paths and the file system\<close>

text \<open>
  A \<open>pathlib.Path\<close> (POSIX flavour) is the list of its parts: \<open>/a/b\<close> is
  \<open>[''/'', ''a'', ''b'']\<close>, \<open>a/b\<close> is \<open>[''a'', ''b'']\<close> and the
  current directory is \<open>[]\<close>. Empty and \<open>.\<close> components are dropped when a
  string is parsed, \<open>..\<close> is kept.
\<close>

type_synonym path = "string list"

fun split_slash :: "string \<Rightarrow> string list" where
  "split_slash [] = [[]]"
| "split_slash (c # cs) =
     (if c = CHR ''/'' then [] # split_slash cs
      else (case split_slash cs of [] \<Rightarrow> [[c]] | w # ws \<Rightarrow> (c # w) # ws))"

definition path_root :: "string \<Rightarrow> string list" where
  "path_root s =
     (let n = length (takeWhile (\<lambda>c. c = CHR ''/'') s)
      in if n = 0 then [] else if n = 2 then [''//''] else [''/''])"

definition Path :: "string \<Rightarrow> path" where
  "Path s = path_root s @ filter (\<lambda>c. c \<noteq> [] \<and> c \<noteq> ''.'') (split_slash s)"

text \<open>\<open>p / s\<close>: an absolute right operand replaces the left one.\<close>

definition path_div :: "path \<Rightarrow> string \<Rightarrow> path" where
  "path_div p s = (if path_root s \<noteq> [] then Path s else p @ Path s)"

definition is_root :: "path \<Rightarrow> bool" where
  "is_root p = (p = [''/''] \<or> p = [''//''])"

definition path_parent :: "path \<Rightarrow> path" where
  "path_parent p = (if p = [] \<or> is_root p then p else butlast p)"

definition path_name :: "path \<Rightarrow> string" where
  "path_name p = (if p = [] \<or> is_root p then [] else last p)"

fun join_slash :: "string list \<Rightarrow> string" where
  "join_slash [] = []"
| "join_slash [c] = c"
| "join_slash (c # d # cs) = c @ ''/'' @ join_slash (d # cs)"

definition path_str :: "path \<Rightarrow> string" where
  "path_str p =
     (case p of
        [] \<Rightarrow> ''.''
      | c # cs \<Rightarrow> if is_root [c] then c @ join_slash cs else join_slash p)"

text \<open>
  The file system maps a path to what is there. The current directory and the root
  always exist as directories. Symbolic links and \<open>..\<close> are not resolved.
\<close>

datatype node = Dir | File string

type_synonym filesystem = "path \<Rightarrow> node option"

definition lookup :: "filesystem \<Rightarrow> path \<Rightarrow> node option" where
  "lookup f p = (if p = [] \<or> is_root p then Some Dir else f p)"

definition path_exists :: "filesystem \<Rightarrow> path \<Rightarrow> bool" where
  "path_exists f p = (lookup f p \<noteq> None)"

definition is_dir :: "filesystem \<Rightarrow> path \<Rightarrow> bool" where
  "is_dir f p = (lookup f p = Some Dir)"

text \<open>\<open>os.mkdir\<close>: one directory, whose parent must be a directory.\<close>

definition os_mkdir :: "filesystem \<Rightarrow> path \<Rightarrow> py_exn + filesystem" where
  "os_mkdir f p =
     (if path_exists f p then Inl FileExistsError
      else (case lookup f (path_parent p) of
              None \<Rightarrow> Inl FileNotFoundError
            | Some (File c) \<Rightarrow> Inl NotADirectoryError
            | Some Dir \<Rightarrow> Inr (f(p \<mapsto> Dir))))"

text \<open>
  \<open>Path.mkdir(parents=False, exist_ok=e)\<close>: \<open>FileNotFoundError\<close> is raised
  again; any other error is swallowed only when \<open>exist_ok\<close> holds and the path is
  a directory.
\<close>

definition mkdir :: "filesystem \<Rightarrow> path \<Rightarrow> bool \<Rightarrow> py_exn + filesystem" where
  "mkdir f p exist_ok =
     (case os_mkdir f p of
        Inr f' \<Rightarrow> Inr f'
      | Inl e \<Rightarrow>
          if e = FileNotFoundError then Inl e
          else if \<not> exist_ok \<or> \<not> is_dir f p then Inl e
          else Inr f)"

text \<open>
  \<open>Path.mkdir(parents=True, exist_ok=e)\<close>: on \<open>FileNotFoundError\<close> the
  parent is made first (with \<open>parents=True, exist_ok=True\<close>), then the path itself
  with \<open>parents=False\<close>.
\<close>

function mkdir_parents :: "filesystem \<Rightarrow> path \<Rightarrow> bool \<Rightarrow> py_exn + filesystem" where
  "mkdir_parents f p exist_ok =
     (case os_mkdir f p of
        Inr f' \<Rightarrow> Inr f'
      | Inl e \<Rightarrow>
          if e = FileNotFoundError then
            (if path_parent p = p then Inl e
             else (case mkdir_parents f (path_parent p) True of
                     Inl e' \<Rightarrow> Inl e'
                   | Inr f1 \<Rightarrow> mkdir f1 p exist_ok))
          else if \<not> exist_ok \<or> \<not> is_dir f p then Inl e
          else Inr f)"
  by pat_completeness auto
termination
  by (relation "measure (\<lambda>(f, p, e). length p)") (auto simp: path_parent_def split: if_splits)

text \<open>
  \<open>open(p, "xt")\<close>: exclusive creation. The file must not exist and its parent
  must be a directory; the new file is empty.
\<close>

definition open_xt :: "filesystem \<Rightarrow> path \<Rightarrow> py_exn + filesystem" where
  "open_xt f p =
     (if path_exists f p then Inl FileExistsError
      else (case lookup f (path_parent p) of
              None \<Rightarrow> Inl FileNotFoundError
            | Some (File c) \<Rightarrow> Inl NotADirectoryError
            | Some Dir \<Rightarrow> Inr (f(p \<mapsto> File []))))"

section \<open>JSON output\<close>

text \<open>
  \<open>json.dump(obj, fp)\<close> with the default encoder writes the document chunk by
  chunk. A value the encoder does not know (here a \<open>datetime\<close>) raises
  \<open>TypeError\<close> when it is reached: what was written before it stays in the file.
  \<open>json_emit\<close> gives the text written and whether the document was completed.
\<close>

definition hex_digit :: "nat \<Rightarrow> char" where
  "hex_digit n = (if n < 10 then char_of (48 + n) else char_of (87 + n))"

definition json_escape_char :: "char \<Rightarrow> string" where
  "json_escape_char c =
     (let n = (of_char c :: nat) in
      if c = CHR 0x22 then [CHR 0x5C, CHR 0x22]
      else if c = CHR 0x5C then [CHR 0x5C, CHR 0x5C]
      else if c = CHR 0x0A then [CHR 0x5C, CHR ''n'']
      else if c = CHR 0x0D then [CHR 0x5C, CHR ''r'']
      else if c = CHR 0x09 then [CHR 0x5C, CHR ''t'']
      else if c = CHR 0x08 then [CHR 0x5C, CHR ''b'']
      else if c = CHR 0x0C then [CHR 0x5C, CHR ''f'']
      else if 32 \<le> n \<and> n \<le> 126 then [c]
      else [CHR 0x5C, CHR ''u'', CHR ''0'', CHR ''0'', hex_digit (n div 16), hex_digit (n mod 16)])"

definition json_str :: "string \<Rightarrow> string" where
  "json_str s = [CHR 0x22] @ concat (map json_escape_char s) @ [CHR 0x22]"

fun json_emit :: "pyvalue \<Rightarrow> string \<times> bool"
  and json_emit_rest :: "pyvalue list \<Rightarrow> string \<times> bool"
  and json_emit_items :: "(string \<times> pyvalue) list \<Rightarrow> string \<times> bool"
where
  "json_emit PNone = (''null'', True)"
| "json_emit (PBool b) = (if b then ''true'' else ''false'', True)"
| "json_emit (PInt i) = (str_int i, True)"
| "json_emit (PStr s) = (json_str s, True)"
| "json_emit (PDatetime t) = ([], False)"
| "json_emit (PList []) = (''[]'', True)"
| "json_emit (PList (x # xs)) =
     (case json_emit x of
        (s, ok) \<Rightarrow>
          if ok then (case json_emit_rest xs of (r, ok') \<Rightarrow> (''['' @ s @ r, ok'))
          else (''['' @ s, False))"
| "json_emit (PDict []) = (''{}'', True)"
| "json_emit (PDict ((k, v) # kvs)) =
     (case json_emit v of
        (s, ok) \<Rightarrow>
          if ok then (case json_emit_items kvs of (r, ok') \<Rightarrow> (''{'' @ json_str k @ '': '' @ s @ r, ok'))
          else (''{'' @ json_str k @ '': '' @ s, False))"
| "json_emit_rest [] = ('']'', True)"
| "json_emit_rest (x # xs) =
     (case json_emit x of
        (s, ok) \<Rightarrow>
          if ok then (case json_emit_rest xs of (r, ok') \<Rightarrow> ('', '' @ s @ r, ok'))
          else ('', '' @ s, False))"
| "json_emit_items [] = (''}'', True)"
| "json_emit_items ((k, v) # kvs) =
     (case json_emit v of
        (s, ok) \<Rightarrow>
          if ok then (case json_emit_items kvs of (r, ok') \<Rightarrow> ('', '' @ json_str k @ '': '' @ s @ r, ok'))
          else ('', '' @ json_str k @ '': '' @ s, False))"

section \<open>The process's world\<close>

text \<open>
  What logging and the file operations can observe and change (\<open>io_state\<close>): the
  file system, what was printed, the text written through the open log file, and the
  system clock (each reading of \<open>datetime.datetime.now()\<close> takes the next entry of
  \<open>timeline\<close>). The \<open>world\<close> adds the profile folders as the external reader
  \<open>ChromiumProfileFolder\<close> parses them and the history of the handles opened on
  them.
\<close>

record clock_reading =
  iso :: string
  compact :: string

datatype printed = Banner | Line string

record io_state =
  fs :: filesystem
  stdout :: "printed list"
  log_text :: string
  ticks :: nat
  timeline :: "nat \<Rightarrow> clock_reading"

record history_rec =
  rec_id :: int
  url :: string
  title :: string
  visit_time :: int
  record_location :: string

record cache_rec =
  key_url :: string
  attributes :: "(string \<times> string list) list"
  request_time :: int
  response_time :: int
  data :: string
  data_location :: string

record session_rec =
  host :: string
  ss_key :: string
  ss_value :: string
  leveldb_sequence_number :: int

record profile_data =
  history :: "history_rec list"
  cache :: "cache_rec list"
  session_storage :: "session_rec list"

record profile_handle =
  handle_id :: nat
  contents :: profile_data

datatype handle_event = Opened nat | Closed nat

record world =
  io :: io_state
  profile_store :: "path \<Rightarrow> profile_data"
  handle_events :: "handle_event list"

definition now :: "io_state \<Rightarrow> clock_reading \<times> io_state" where
  "now s = (timeline s (ticks s), s\<lparr>ticks := Suc (ticks s)\<rparr>)"

definition print :: "printed \<Rightarrow> io_state \<Rightarrow> io_state" where
  "print x s = s\<lparr>stdout := stdout s @ [x]\<rparr>"

text \<open>
  \<open>with ChromiumProfileFolder(path) as profile\<close>: entering makes a new handle
  (numbered by how many were opened before), leaving releases it. The reader is
  external; opening a folder is taken to succeed.
\<close>

fun is_opened :: "handle_event \<Rightarrow> bool" where
  "is_opened (Opened i) = True"
| "is_opened (Closed i) = False"

definition opened_count :: "world \<Rightarrow> nat" where
  "opened_count w = length (filter is_opened (handle_events w))"

definition ChromiumProfileFolder_enter :: "path \<Rightarrow> world \<Rightarrow> profile_handle \<times> world" where
  "ChromiumProfileFolder_enter p w =
     (\<lparr>handle_id = opened_count w, contents = profile_store w p\<rparr>,
      w\<lparr>handle_events := handle_events w @ [Opened (opened_count w)]\<rparr>)"

definition ChromiumProfileFolder_exit :: "profile_handle \<Rightarrow> world \<Rightarrow> world" where
  "ChromiumProfileFolder_exit h w = w\<lparr>handle_events := handle_events w @ [Closed (handle_id h)]\<rparr>"

subsection \<open>SimpleLog\<close>

record SimpleLog =
  log_path :: path

definition SimpleLog_init :: "path \<Rightarrow> io_state \<Rightarrow> py_exn + (SimpleLog \<times> io_state)" where
  "SimpleLog_init out_path s =
     (case open_xt (fs s) out_path of
        Inl e \<Rightarrow> Inl e
      | Inr f \<Rightarrow> Inr (\<lparr>log_path = out_path\<rparr>, s\<lparr>fs := f\<rparr>))"

text \<open>\<open>message.replace('\n', '\n\t')\<close>\<close>

definition indent_newlines :: "string \<Rightarrow> string" where
  "indent_newlines m = concat (map (\<lambda>c. if c = CHR 0x0A then [CHR 0x0A, CHR 0x09] else [c]) m)"

text \<open>
  \<open>log_message\<close>: the line goes to the log file's stream and to standard output
  (whose encoding is taken to hold every character of the line).
\<close>

definition log_message :: "string \<Rightarrow> io_state \<Rightarrow> io_state" where
  "log_message message s =
     (case now s of
        (t, s1) \<Rightarrow>
          (let formatted_message = iso t @ [CHR 0x09] @ indent_newlines message
           in print (Line formatted_message)
                (s1\<lparr>log_text := log_text s1 @ formatted_message @ [CHR 0x0A]\<rparr>)))"

section \<open>Artifacts\<close>

text \<open>
  Modelled from the spec: \<open>util.fs_utils.sanitize_filename\<close> is not among the source
  files. The spec says a name is sanitized by stripping or replacing the characters that
  are unsafe in a file name; here each of them becomes an underscore. The code that calls
  it takes the sanitizer as a parameter; this definition is one instance.
\<close>

definition unsafe_char :: "char \<Rightarrow> bool" where
  "unsafe_char c = (c \<in> set ''<>:/|?*'' \<or> c = CHR 0x22 \<or> c = CHR 0x5C \<or> (of_char c :: nat) < 32)"

definition sanitize_filename :: "string \<Rightarrow> string" where
  "sanitize_filename s = map (\<lambda>c. if unsafe_char c then CHR ''_'' else c) s"

text \<open>
  Modelled from the spec: \<open>util.artifact_utils.ArtifactStorage\<close> is not among the
  source files. The spec gives it one operation, which turns a suggested name into a
  sanitized name no earlier call of the same handle was given, writes the bytes under
  the handle's root and returns a reference to the location. How the name is made
  unique is the handle's \<open>naming\<close>.
\<close>

record ArtifactStorage =
  storage_root :: path
  naming :: "string list \<Rightarrow> string \<Rightarrow> string"
  issued :: "string list"
  binary_outputs :: "(string \<times> string) list"

definition get_binary_stream :: "ArtifactStorage \<Rightarrow> string \<Rightarrow> string \<Rightarrow> string \<times> ArtifactStorage" where
  "get_binary_stream st suggested bytes =
     (let n = naming st (issued st) suggested;
          location = path_str (path_div (storage_root st) n)
      in (location, st\<lparr>issued := issued st @ [n],
                       binary_outputs := binary_outputs st @ [(location, bytes)]\<rparr>))"

text \<open>
  Modelled from the spec: \<open>util.artifact_utils.ArtifactResult\<close>,
  \<open>ReportPresentation\<close> and \<open>ArtifactSpec\<close> are not among the source files.
  An \<open>ArtifactResult\<close> wraps the sequence of records a plugin built, read back as
  \<open>.result\<close>; the fields of an \<open>ArtifactSpec\<close> are in the order the plugins
  give them. The field \<open>function\<close> is named \<open>func\<close> here.
\<close>

datatype artifact_result = ArtifactResult (result: "pydict list")

datatype ReportPresentation = table

text \<open>
  A call of an extraction function is given its positional arguments. The function
  acts on the world only through them: it reads the profile, passes messages to the log
  function (\<open>logged\<close>, in order) and returns a result or raises.
\<close>

datatype pyarg = ArgProfile profile_handle | ArgLog | ArgStorage ArtifactStorage

record plugin_run =
  logged :: "string list"
  outcome :: "py_exn + artifact_result"

record ArtifactSpec =
  service :: string
  name :: string
  description :: string
  version :: string
  func :: "pyarg list \<Rightarrow> plugin_run"
  presentation :: ReportPresentation

text \<open>
  \<open>def f(profile, log_func, storage)\<close>: three required positional parameters. A
  call with another number of arguments raises \<open>TypeError\<close> before the body runs.
\<close>

definition def3 :: "(pyarg \<Rightarrow> pyarg \<Rightarrow> pyarg \<Rightarrow> plugin_run) \<Rightarrow> pyarg list \<Rightarrow> plugin_run" where
  "def3 body args =
     (case args of
        [a, b, c] \<Rightarrow> body a b c
      | _ \<Rightarrow> \<lparr>logged = [], outcome = Inl TypeError\<rparr>)"

subsection \<open>The plugin loader\<close>

text \<open>
  Modelled from the spec: \<open>util.plugin_loader.PluginLoader\<close> is not among the source
  files. It is given the plugin modules found in the plugin directory, each with the
  descriptors it exports, and collects them into a catalog of (descriptor, module path);
  two descriptors with one name make the load fail with \<open>DuplicateArtifactName\<close>.
  Looking up a name that is not there fails with \<open>UnknownArtifact\<close>.
\<close>

type_synonym catalog = "(ArtifactSpec \<times> path) list"

definition PluginLoader :: "(path \<times> ArtifactSpec list) list \<Rightarrow> py_exn + catalog" where
  "PluginLoader modules =
     (let entries = concat (map (\<lambda>(p, specs). map (\<lambda>s. (s, p)) specs) modules)
      in if distinct (map (\<lambda>(s, p). name s) entries) then Inr entries
         else Inl DuplicateArtifactName)"

definition loader_getitem :: "catalog \<Rightarrow> string \<Rightarrow> py_exn + (ArtifactSpec \<times> path)" where
  "loader_getitem cat artifact_name =
     (case find (\<lambda>(s, p). name s = artifact_name) cat of
        None \<Rightarrow> Inl UnknownArtifact
      | Some e \<Rightarrow> Inr e)"

section \<open>The orchestrator: class MisterSkinnylegs\<close>

record MisterSkinnylegs =
  plugin_loader :: catalog
  profile_folder_path :: path
  log_callback :: "string \<Rightarrow> io_state \<Rightarrow> io_state"

definition log_fallback :: "string \<Rightarrow> io_state \<Rightarrow> io_state" where
  "log_fallback message s = print (Line (''Log:'' @ [CHR 0x09] @ message)) s"

text \<open>
  \<open>__init__\<close>: the plugin loader is built first, then the profile path is checked.
  \<open>plugin_modules\<close> is what the plugin directory holds.
\<close>

definition MisterSkinnylegs_init ::
  "(path \<times> ArtifactSpec list) list \<Rightarrow> path \<Rightarrow> (string \<Rightarrow> io_state \<Rightarrow> io_state) option \<Rightarrow> io_state
   \<Rightarrow> py_exn + MisterSkinnylegs" where
  "MisterSkinnylegs_init plugin_modules profile_path log_cb s =
     (case PluginLoader plugin_modules of
        Inl e \<Rightarrow> Inl e
      | Inr cat \<Rightarrow>
          if \<not> is_dir (fs s) profile_path then Inl NotADirectoryError
          else Inr \<lparr>plugin_loader = cat, profile_folder_path = profile_path,
                    log_callback = (case log_cb of None \<Rightarrow> log_fallback | Some cb \<Rightarrow> cb)\<rparr>)"

definition artifacts :: "MisterSkinnylegs \<Rightarrow> (ArtifactSpec \<times> path) list" where
  "artifacts ms = plugin_loader ms"

definition profile_folder :: "MisterSkinnylegs \<Rightarrow> path" where
  "profile_folder ms = profile_folder_path ms"

text \<open>
  The result dictionary \<open>_run_artifact\<close> builds for a descriptor and the
  \<open>ArtifactResult\<close> its function returned.
\<close>

definition result_dict :: "ArtifactSpec \<Rightarrow> artifact_result \<Rightarrow> pydict" where
  "result_dict spec res =
     [(''artifact_service'', PStr (service spec)),
      (''artifact_name'', PStr (name spec)),
      (''artifact_version'', PStr (version spec)),
      (''artifact_description'', PStr (description spec)),
      (''result'', PList (map PDict (result res)))]"

text \<open>
  \<open>_run_artifact\<close>, run to its end. The extraction function is called with two
  arguments, the profile and the log callback; the messages it logs go through the
  callback. The \<open>with\<close> block leaves the profile whether the call returns or raises.
\<close>

definition run_artifact ::
  "MisterSkinnylegs \<Rightarrow> ArtifactSpec \<Rightarrow> world \<Rightarrow> (py_exn + (ArtifactSpec \<times> pydict)) \<times> world" where
  "run_artifact ms spec w =
     (case ChromiumProfileFolder_enter (profile_folder_path ms) w of
        (profile, w1) \<Rightarrow>
          (let r = func spec [ArgProfile profile, ArgLog];
               w2 = w1\<lparr>io := fold (log_callback ms) (logged r) (io w1)\<rparr>;
               w3 = ChromiumProfileFolder_exit profile w2
           in case outcome r of
                Inl e \<Rightarrow> (Inl e, w3)
              | Inr res \<Rightarrow> (Inr (spec, result_dict spec res), w3)))"

text \<open>
  The call \<open>spec.function(profile, self._log_callback)\<close> that \<open>_run_artifact\<close>
  makes when the handle it opened is number \<open>i\<close>.
\<close>

definition call :: "MisterSkinnylegs \<Rightarrow> world \<Rightarrow> ArtifactSpec \<Rightarrow> nat \<Rightarrow> plugin_run" where
  "call ms w spec i =
     func spec [ArgProfile \<lparr>handle_id = i, contents = profile_store w (profile_folder_path ms)\<rparr>, ArgLog]"

text \<open>
  Calling an \<open>async def\<close> only makes a coroutine object; its body runs when the
  object is awaited or scheduled as a task.
\<close>

datatype coroutine = Coroutine_run_artifact MisterSkinnylegs ArtifactSpec

fun await :: "coroutine \<Rightarrow> world \<Rightarrow> (py_exn + (ArtifactSpec \<times> pydict)) \<times> world" where
  "await (Coroutine_run_artifact ms spec) w = run_artifact ms spec w"

text \<open>
  \<open>run_all\<close>. \<open>asyncio.as_completed\<close> puts the coroutines into a set and makes
  a task of each; \<open>order\<close> is the order in which the set gives them, a permutation
  of their indices. No coroutine has a suspension point, so the event loop runs each task
  to its end in that order before the consumer gets the first result. The results are
  then handed out in the same order; the first one that is an exception is raised in
  the consumer and ends the generator.
\<close>

fun run_tasks :: "coroutine list \<Rightarrow> world \<Rightarrow> (py_exn + (ArtifactSpec \<times> pydict)) list \<times> world" where
  "run_tasks [] w = ([], w)"
| "run_tasks (c # cs) w =
     (case await c w of
        (r, w1) \<Rightarrow> (case run_tasks cs w1 of (rs, w2) \<Rightarrow> (r # rs, w2)))"

fun deliver :: "(py_exn + 'a) list \<Rightarrow> 'a list \<times> py_exn option" where
  "deliver [] = ([], None)"
| "deliver (Inl e # rs) = ([], Some e)"
| "deliver (Inr x # rs) = (case deliver rs of (xs, t) \<Rightarrow> (x # xs, t))"

definition run_all ::
  "MisterSkinnylegs \<Rightarrow> nat list \<Rightarrow> world \<Rightarrow> ((ArtifactSpec \<times> pydict) list \<times> py_exn option) \<times> world" where
  "run_all ms order w =
     (let tasks = map (\<lambda>(spec, path). Coroutine_run_artifact ms spec) (artifacts ms)
      in case run_tasks (map (\<lambda>i. tasks ! i) order) w of
           (rs, w') \<Rightarrow> (deliver rs, w'))"

text \<open>\<open>run_one\<close>: the coroutine of \<open>_run_artifact\<close> is returned as it is.\<close>

definition run_one ::
  "MisterSkinnylegs \<Rightarrow> string \<Rightarrow> world \<Rightarrow> (py_exn + (ArtifactSpec \<times> coroutine)) \<times> world" where
  "run_one ms artifact_name w =
     (case loader_getitem (plugin_loader ms) artifact_name of
        Inl e \<Rightarrow> (Inl e, w)
      | Inr (spec, path) \<Rightarrow> (Inr (spec, Coroutine_run_artifact ms spec), w))"

section \<open>The program: main\<close>

definition version_string :: string where
  "version_string = ''0.0.3''"

text \<open>
  The body of the loop over \<open>run_all()\<close>: one (spec, result) pair. The sanitizer
  \<open>sanitize\<close> is \<open>util.fs_utils.sanitize_filename\<close>, which is not among the
  source files.
\<close>

definition process_result ::
  "(string \<Rightarrow> string) \<Rightarrow> path \<Rightarrow> ArtifactSpec \<times> pydict \<Rightarrow> io_state \<Rightarrow> py_exn option \<times> io_state" where
  "process_result sanitize report_out_folder_path sr s =
     (case sr of
        (spec, res) \<Rightarrow>
          (let s1 = log_message (''Results acquired for '' @ name spec) s in
           case dict_getitem res ''result'' of
             Inl e \<Rightarrow> (Some e, s1)
           | Inr v \<Rightarrow>
               if \<not> truthy v then (None, log_message (name spec @ '' had not results, skipping'') s1)
               else
                 (let out_dir_path = path_div report_out_folder_path (sanitize (service spec)) in
                  case mkdir (fs s1) out_dir_path True of
                    Inl e \<Rightarrow> (Some e, s1)
                  | Inr f2 \<Rightarrow>
                      (let out_file_path = path_div out_dir_path (sanitize (name spec) @ ''.json'');
                           s3 = log_message (''Generating output at '' @ path_str out_file_path) (s1\<lparr>fs := f2\<rparr>)
                       in case open_xt (fs s3) out_file_path of
                            Inl e \<Rightarrow> (Some e, s3)
                          | Inr f4 \<Rightarrow>
                              (case json_emit (PDict res) of
                                 (written, complete) \<Rightarrow>
                                   (if complete then None else Some TypeError,
                                    s3\<lparr>fs := f4(out_file_path \<mapsto> File written)\<rparr>))))))"

fun consume ::
  "(string \<Rightarrow> string) \<Rightarrow> path \<Rightarrow> (ArtifactSpec \<times> pydict) list \<Rightarrow> io_state \<Rightarrow> py_exn option \<times> io_state" where
  "consume sanitize out [] s = (None, s)"
| "consume sanitize out (sr # srs) s =
     (case process_result sanitize out sr s of
        (Some e, s') \<Rightarrow> (Some e, s')
      | (None, s') \<Rightarrow> consume sanitize out srs s')"

text \<open>
  The start of \<open>main\<close>, up to the construction of the orchestrator: the two paths are
  checked, the output folder and the log file are made, then the plugins are loaded.
\<close>

definition main_startup ::
  "(path \<times> ArtifactSpec list) list \<Rightarrow> string list \<Rightarrow> io_state
   \<Rightarrow> (py_exn + (MisterSkinnylegs \<times> path)) \<times> io_state" where
  "main_startup plugin_modules args s =
     (case args of
        a0 # a1 # rest \<Rightarrow>
          (let profile_input_path = Path a0;
               report_out_folder_path = Path a1;
               s1 = print Banner s
           in if \<not> is_dir (fs s1) profile_input_path then (Inl NotADirectoryError, s1)
              else if path_exists (fs s1) report_out_folder_path then (Inl FileExistsError, s1)
              else
                (case mkdir_parents (fs s1) report_out_folder_path False of
                   Inl e \<Rightarrow> (Inl e, s1)
                 | Inr f2 \<Rightarrow>
                     (case now (s1\<lparr>fs := f2\<rparr>) of
                        (t, s3) \<Rightarrow>
                          (case SimpleLog_init
                                  (path_div report_out_folder_path (''log_'' @ compact t @ ''.log'')) s3 of
                             Inl e \<Rightarrow> (Inl e, s3)
                           | Inr (log_file, s4) \<Rightarrow>
                               (case MisterSkinnylegs_init plugin_modules profile_input_path
                                       (Some log_message) s4 of
                                  Inl e \<Rightarrow> (Inl e, s4)
                                | Inr mr_sl \<Rightarrow> (Inr (mr_sl, report_out_folder_path), s4))))))
      | _ \<Rightarrow> (Inl IndexError, s))"

text \<open>The opening log lines of \<open>main\<close>.\<close>

definition main_opening :: "MisterSkinnylegs \<Rightarrow> io_state \<Rightarrow> io_state" where
  "main_opening mr_sl s =
     (let s1 = log_message (''Mister Skinnylegs v'' @ version_string @ '' is on the go!'') s;
          s2 = log_message (''Working with profile folder: '' @ path_str (profile_folder mr_sl)) s1;
          s3 = log_message [] s2;
          s4 = log_message ''Plugins loaded:'' s3;
          s5 = log_message ''==============='' s4;
          s6 = fold (\<lambda>(spec, path). log_message (name spec @ ''  -  '' @ path_name path)) (artifacts mr_sl) s5;
          s7 = log_message [] s6
      in log_message ''Processing starting...'' s7)"

text \<open>The rest of \<open>main\<close>: the opening log lines, then the loop over the results.\<close>

definition main_report ::
  "(string \<Rightarrow> string) \<Rightarrow> nat list \<Rightarrow> MisterSkinnylegs \<Rightarrow> path \<Rightarrow> world \<Rightarrow> py_exn option \<times> world" where
  "main_report sanitize order mr_sl report_out_folder_path w =
     (case run_all mr_sl order (w\<lparr>io := main_opening mr_sl (io w)\<rparr>) of
        ((yielded, raised), w9) \<Rightarrow>
          (case consume sanitize report_out_folder_path yielded (io w9) of
             (Some e, s10) \<Rightarrow> (Some e, w9\<lparr>io := s10\<rparr>)
           | (None, s10) \<Rightarrow> (raised, w9\<lparr>io := s10\<rparr>)))"

definition main ::
  "(string \<Rightarrow> string) \<Rightarrow> (path \<times> ArtifactSpec list) list \<Rightarrow> nat list \<Rightarrow> string list \<Rightarrow> world
   \<Rightarrow> py_exn option \<times> world" where
  "main sanitize plugin_modules order args w =
     (case main_startup plugin_modules args (io w) of
        (Inl e, s') \<Rightarrow> (Some e, w\<lparr>io := s'\<rparr>)
      | (Inr (mr_sl, report_out_folder_path), s') \<Rightarrow>
          main_report sanitize order mr_sl report_out_folder_path (w\<lparr>io := s'\<rparr>))"

section \<open>The Google Drive plugin\<close>

subsection \<open>Regular expressions\<close>

text \<open>
  The patterns of the plugin, matched by derivatives. \<open>re_match\<close> is
  \<open>pattern.match(s)\<close> (the pattern at the start of \<open>s\<close>), \<open>re_search\<close> is
  \<open>pattern.search(s)\<close> (the pattern anywhere in \<open>s\<close>); both as truth values.
  The texts matched are ASCII, so \<open>\d\<close> is a decimal digit and \<open>\w\<close> a letter,
  a digit or an underscore.
\<close>

datatype rx = Nul | Eps | Sym "char \<Rightarrow> bool" | Seq rx rx | Alt rx rx | Star rx

fun nullable :: "rx \<Rightarrow> bool" where
  "nullable Nul = False"
| "nullable Eps = True"
| "nullable (Sym P) = False"
| "nullable (Seq r s) = (nullable r \<and> nullable s)"
| "nullable (Alt r s) = (nullable r \<or> nullable s)"
| "nullable (Star r) = True"

fun deriv :: "char \<Rightarrow> rx \<Rightarrow> rx" where
  "deriv c Nul = Nul"
| "deriv c Eps = Nul"
| "deriv c (Sym P) = (if P c then Eps else Nul)"
| "deriv c (Seq r s) = (if nullable r then Alt (Seq (deriv c r) s) (deriv c s) else Seq (deriv c r) s)"
| "deriv c (Alt r s) = Alt (deriv c r) (deriv c s)"
| "deriv c (Star r) = Seq (deriv c r) (Star r)"

definition fullmatch :: "rx \<Rightarrow> string \<Rightarrow> bool" where
  "fullmatch r s = nullable (fold deriv s r)"

definition anything :: rx where
  "anything = Star (Sym (\<lambda>c. True))"

definition re_match :: "rx \<Rightarrow> string \<Rightarrow> bool" where
  "re_match r s = fullmatch (Seq r anything) s"

definition re_search :: "rx \<Rightarrow> string \<Rightarrow> bool" where
  "re_search r s = fullmatch (Seq anything (Seq r anything)) s"

definition dot :: rx where
  "dot = Sym (\<lambda>c. c \<noteq> CHR 0x0A)"

definition is_digit :: "char \<Rightarrow> bool" where
  "is_digit c = (48 \<le> (of_char c :: nat) \<and> (of_char c :: nat) \<le> 57)"

definition is_upper :: "char \<Rightarrow> bool" where
  "is_upper c = (65 \<le> (of_char c :: nat) \<and> (of_char c :: nat) \<le> 90)"

definition is_lower :: "char \<Rightarrow> bool" where
  "is_lower c = (97 \<le> (of_char c :: nat) \<and> (of_char c :: nat) \<le> 122)"

definition word_char :: "char \<Rightarrow> bool" where
  "word_char c = (is_digit c \<or> is_upper c \<or> is_lower c \<or> c = CHR ''_'')"

text \<open>A literal text.\<close>

fun lit :: "string \<Rightarrow> rx" where
  "lit [] = Eps"
| "lit (c # cs) = Seq (Sym (\<lambda>x. x = c)) (lit cs)"

text \<open>A pattern text in which an unescaped \<open>.\<close> stands for any character but a newline.\<close>

fun pat :: "string \<Rightarrow> rx" where
  "pat [] = Eps"
| "pat (c # cs) = Seq (if c = CHR ''.'' then dot else Sym (\<lambda>x. x = c)) (pat cs)"

definition plus :: "rx \<Rightarrow> rx" where
  "plus r = Seq r (Star r)"

text \<open>\<open>\d{2,4}\<close>\<close>

definition digits_2_4 :: rx where
  "digits_2_4 =
     Seq (Sym is_digit) (Seq (Sym is_digit) (Alt Eps (Seq (Sym is_digit) (Alt Eps (Sym is_digit)))))"

definition FOLDERS_URL_PATTERN :: rx where
  "FOLDERS_URL_PATTERN = pat ''https://drive.google.com/drive/folders/''"

definition FILES_URL_PATTERN :: rx where
  "FILES_URL_PATTERN = pat ''https://drive.google.com/file/d/''"

definition DOCS_URL_PATTERN :: rx where
  "DOCS_URL_PATTERN = Seq (pat ''https://docs.google.com/'') (Seq (plus (Sym word_char)) (lit ''/d/''))"

definition THUMBNAIL_URL_PATTERN_1 :: rx where
  "THUMBNAIL_URL_PATTERN_1 =
     Seq (lit ''googleusercontent.com/fife'')
       (Seq (plus dot) (Seq (lit ''w'') (Seq digits_2_4 (Seq (lit ''-h'') digits_2_4))))"

definition THUMBNAIL_URL_PATTERN_2 :: rx where
  "THUMBNAIL_URL_PATTERN_2 =
     Seq (pat ''drive.fife.usercontent.google.com/u'')
       (Seq (plus dot) (Seq (lit ''w'') (Seq digits_2_4 (Seq (lit ''-h'') digits_2_4))))"

text \<open>
  The group \<open>service\<close> of a match of \<open>DOCS_URL_PATTERN\<close>: the word characters
  after the 24 characters of the host part. A \<open>/\<close> is no word character, so the
  lazy \<open>\w+?\<close> before \<open>/d/\<close> can only end where the word characters end.
\<close>

definition docs_match :: "string \<Rightarrow> string option" where
  "docs_match s =
     (if re_match DOCS_URL_PATTERN s
      then Some (takeWhile word_char (drop (length ''https://docs.google.com/'') s))
      else None)"

text \<open>
  \<open>re.search(r'filename="(.+?)"', s)\<close> and its group 1: at the leftmost place where
  \<open>filename="\<close> starts a match, one character that is no newline, then as few more as
  possible up to the next double quote, with no newline on the way.
\<close>

definition lazy_group :: "string \<Rightarrow> string option" where
  "lazy_group t =
     (case t of
        [] \<Rightarrow> None
      | c # t' \<Rightarrow>
          if c = CHR 0x0A then None
          else (let g = takeWhile (\<lambda>x. x \<noteq> CHR 0x22) t'
                in if CHR 0x0A \<in> set g \<or> dropWhile (\<lambda>x. x \<noteq> CHR 0x22) t' = [] then None
                   else Some (c # g)))"

definition filename_at :: "string \<Rightarrow> string option" where
  "filename_at s =
     (if take 10 s = ''filename='' @ [CHR 0x22] then lazy_group (drop 10 s) else None)"

fun filename_search :: "string \<Rightarrow> string option" where
  "filename_search [] = None"
| "filename_search (c # cs) =
     (case filename_at (c # cs) of Some g \<Rightarrow> Some g | None \<Rightarrow> filename_search cs)"

subsection \<open>String methods\<close>

text \<open>\<open>s.rsplit(sep, 1)[0]\<close>: what stands before the last occurrence of \<open>sep\<close>.\<close>

fun last_index :: "string \<Rightarrow> string \<Rightarrow> nat option" where
  "last_index sep [] = None"
| "last_index sep (c # cs) =
     (case last_index sep cs of
        Some i \<Rightarrow> Some (Suc i)
      | None \<Rightarrow> if take (length sep) (c # cs) = sep then Some 0 else None)"

definition rsplit_head :: "string \<Rightarrow> string \<Rightarrow> string" where
  "rsplit_head sep s = (case last_index sep s of None \<Rightarrow> s | Some i \<Rightarrow> take i s)"

definition to_upper :: "char \<Rightarrow> char" where
  "to_upper c = (if is_lower c then char_of ((of_char c :: nat) - 32) else c)"

definition to_lower :: "char \<Rightarrow> char" where
  "to_lower c = (if is_upper c then char_of ((of_char c :: nat) + 32) else c)"

text \<open>\<open>s.title()\<close>: a letter after a letter is lowered, any other letter is raised.\<close>

fun title_from :: "bool \<Rightarrow> string \<Rightarrow> string" where
  "title_from prev [] = []"
| "title_from prev (c # cs) =
     (if is_upper c \<or> is_lower c
      then (if prev then to_lower c else to_upper c) # title_from True cs
      else c # title_from False cs)"

definition str_title :: "string \<Rightarrow> string" where
  "str_title s = title_from False s"

definition rstrip_nul :: "string \<Rightarrow> string" where
  "rstrip_nul s = rev (dropWhile (\<lambda>c. c = CHR 0x00) (rev s))"

text \<open>
  \<open>int(s)\<close> of a string: surrounding white space, a sign, and decimal digits that
  single underscores may separate; anything else raises \<open>ValueError\<close>, and so does
  a text of more than 4300 digits (the interpreter's default limit).
\<close>

definition is_space :: "char \<Rightarrow> bool" where
  "is_space c =
     (let n = (of_char c :: nat) in n = 32 \<or> (9 \<le> n \<and> n \<le> 13) \<or> (28 \<le> n \<and> n \<le> 31))"

definition strip :: "string \<Rightarrow> string" where
  "strip s = rev (dropWhile is_space (rev (dropWhile is_space s)))"

definition digit_val :: "char \<Rightarrow> nat" where
  "digit_val c = (of_char c :: nat) - 48"

fun digits_val :: "nat \<Rightarrow> string \<Rightarrow> nat option" where
  "digits_val acc [] = Some acc"
| "digits_val acc [c] = (if is_digit c then Some (acc * 10 + digit_val c) else None)"
| "digits_val acc (c # d # cs) =
     (if is_digit c then digits_val (acc * 10 + digit_val c) (d # cs)
      else if c = CHR ''_'' \<and> is_digit d then digits_val (acc * 10 + digit_val d) cs
      else None)"

definition nat_of_str :: "string \<Rightarrow> nat option" where
  "nat_of_str s =
     (case s of
        [] \<Rightarrow> None
      | c # cs \<Rightarrow> if is_digit c then digits_val (digit_val c) cs else None)"

definition py_int :: "string \<Rightarrow> py_exn + int" where
  "py_int s =
     (case strip s of
        [] \<Rightarrow> Inl ValueError
      | c # cs \<Rightarrow>
          if length (filter is_digit (c # cs)) > 4300 then Inl ValueError
          else
            (case (if c = CHR ''-'' \<or> c = CHR ''+'' then nat_of_str cs else nat_of_str (c # cs)) of
               None \<Rightarrow> Inl ValueError
             | Some n \<Rightarrow> Inr (if c = CHR ''-'' then - int n else int n)))"

subsection \<open>Timestamps and sorting\<close>

text \<open>
  \<open>parse_unix_ms\<close>: \<open>EPOCH + timedelta(milliseconds=ms)\<close>. The sum must be a
  \<open>datetime\<close> of the years 1 to 9999, else \<open>OverflowError\<close>.
\<close>

definition parse_unix_ms :: "int \<Rightarrow> py_exn + int" where
  "parse_unix_ms ms =
     (if - 62135596800000 \<le> ms \<and> ms \<le> 253402300799999 then Inr (ms * 1000)
      else Inl OverflowError)"

text \<open>
  \<open>results.sort(key=lambda x: x[k])\<close>. The key of every record is taken first
  (\<open>KeyError\<close> when a record has none), then the records are sorted by their keys,
  records with equal keys staying in their order. The keys of this plugin are
  timestamps; a key of another type is outside the model and reported as \<open>TypeError\<close>.
\<close>

definition datetime_key :: "string \<Rightarrow> pydict \<Rightarrow> py_exn + int" where
  "datetime_key k d =
     (case map_of d k of
        None \<Rightarrow> Inl KeyError
      | Some v \<Rightarrow> (case v of PDatetime t \<Rightarrow> Inr t | _ \<Rightarrow> Inl TypeError))"

fun keyed :: "string \<Rightarrow> pydict list \<Rightarrow> py_exn + (int \<times> pydict) list" where
  "keyed k [] = Inr []"
| "keyed k (d # ds) =
     (case datetime_key k d of
        Inl e \<Rightarrow> Inl e
      | Inr t \<Rightarrow> (case keyed k ds of Inl e \<Rightarrow> Inl e | Inr r \<Rightarrow> Inr ((t, d) # r)))"

definition list_sort :: "string \<Rightarrow> pydict list \<Rightarrow> py_exn + pydict list" where
  "list_sort k results =
     (case keyed k results of
        Inl e \<Rightarrow> Inl e
      | Inr kds \<Rightarrow> Inr (map snd (sort_key fst kds)))"

subsection \<open>folders_and_files\<close>

definition matches_file_listing_pattern :: "string \<Rightarrow> bool" where
  "matches_file_listing_pattern s =
     (re_match FOLDERS_URL_PATTERN s \<or> re_match FILES_URL_PATTERN s \<or> re_match DOCS_URL_PATTERN s)"

definition matches_thumbnail_pattern :: "string \<Rightarrow> bool" where
  "matches_thumbnail_pattern s =
     (re_search THUMBNAIL_URL_PATTERN_1 s \<or> re_search THUMBNAIL_URL_PATTERN_2 s)"

definition listing_record :: "history_rec \<Rightarrow> string \<Rightarrow> pydict" where
  "listing_record history_rec ty =
     [(''id'', PInt (rec_id history_rec)),
      (''type'', PStr ty),
      (''name'', PStr (rsplit_head '' - '' (title history_rec))),
      (''url'', PStr (url history_rec)),
      (''timestamp'', PDatetime (visit_time history_rec))]"

text \<open>What one turn of the loop appends to \<open>results\<close>.\<close>

definition listing_entry :: "history_rec \<Rightarrow> pydict list" where
  "listing_entry history_rec =
     (if re_match FOLDERS_URL_PATTERN (url history_rec) then [listing_record history_rec ''Folder'']
      else if re_match FILES_URL_PATTERN (url history_rec) then [listing_record history_rec ''File'']
      else (case docs_match (url history_rec) of
              Some g \<Rightarrow> [listing_record history_rec (str_title g)]
            | None \<Rightarrow> []))"

definition folders_and_files :: "pyarg \<Rightarrow> pyarg \<Rightarrow> pyarg \<Rightarrow> plugin_run" where
  "folders_and_files profile log_func storage =
     (case profile of
        ArgProfile h \<Rightarrow>
          (let results =
                 concat (map listing_entry
                   (filter (\<lambda>r. matches_file_listing_pattern (url r)) (history (contents h))))
           in \<lparr>logged = [],
               outcome = (case list_sort ''timestamp'' results of
                            Inl e \<Rightarrow> Inl e
                          | Inr sorted_results \<Rightarrow> Inr (ArtifactResult sorted_results))\<rparr>)
      | _ \<Rightarrow> \<lparr>logged = [], outcome = Inl AttributeError\<rparr>)"

subsection \<open>thumbnails\<close>

text \<open>\<open>rec.metadata.get_attribute(k)\<close>: the values of a header, none when it is absent.\<close>

definition get_attribute :: "cache_rec \<Rightarrow> string \<Rightarrow> string list" where
  "get_attribute r k = (case map_of (attributes r) k of None \<Rightarrow> [] | Some vs \<Rightarrow> vs)"

text \<open>
  The loop over the enumerated cache records: the messages logged, the storage handle
  after the writes, and the records, or the exception that ended the loop. The
  arguments are used as they come: \<open>storage\<close> is \<open>None\<close> when the third
  argument is no storage handle (the call of its method then raises
  \<open>AttributeError\<close>), \<open>callable\<close> tells whether the second one can be called.
\<close>

fun thumbnails_loop ::
  "nat \<Rightarrow> cache_rec list \<Rightarrow> bool \<Rightarrow> ArtifactStorage option
   \<Rightarrow> string list \<times> ArtifactStorage option \<times> (py_exn + pydict list)" where
  "thumbnails_loop idx [] callable storage = ([], storage, Inr [])"
| "thumbnails_loop idx (r # rs) callable storage =
     (case get_attribute r ''content-disposition'' of
        [] \<Rightarrow> ([], storage, Inl IndexError)
      | content_disposition # others \<Rightarrow>
          (case filename_search content_disposition of
             None \<Rightarrow> ([], storage, Inl AttributeError)
           | Some cache_filename \<Rightarrow>
               (case storage of
                  None \<Rightarrow> ([], storage, Inl AttributeError)
                | Some st \<Rightarrow>
                    (case get_binary_stream st (str_nat idx @ ''_'' @ cache_filename) (data r) of
                       (location, st1) \<Rightarrow>
                         if \<not> callable then ([], Some st1, Inl TypeError)
                         else
                           (case thumbnails_loop (Suc idx) rs callable (Some st1) of
                              (msgs, st2, rest) \<Rightarrow>
                                ((''Exporting thumbnail to: '' @ location) # msgs, st2,
                                 (case rest of
                                    Inl e \<Rightarrow> Inl e
                                  | Inr ds \<Rightarrow>
                                      Inr ([(''url'', PStr (rstrip_nul (key_url r))),
                                            (''cache request time'', PDatetime (request_time r)),
                                            (''cache response time'', PDatetime (response_time r)),
                                            (''extracted file reference'', PStr location)] # ds))))))))"

definition thumbnails_run ::
  "profile_handle \<Rightarrow> bool \<Rightarrow> ArtifactStorage option
   \<Rightarrow> string list \<times> ArtifactStorage option \<times> (py_exn + artifact_result)" where
  "thumbnails_run h callable storage =
     (case thumbnails_loop 0
             (filter (\<lambda>r. matches_thumbnail_pattern (key_url r)) (cache (contents h))) callable storage of
        (msgs, st', rest) \<Rightarrow>
          (msgs, st',
           (case rest of
              Inl e \<Rightarrow> Inl e
            | Inr results \<Rightarrow>
                (case list_sort ''cache request time'' results of
                   Inl e \<Rightarrow> Inl e
                 | Inr sorted_results \<Rightarrow> Inr (ArtifactResult sorted_results)))))"

fun is_callable :: "pyarg \<Rightarrow> bool" where
  "is_callable ArgLog = True"
| "is_callable (ArgProfile h) = False"
| "is_callable (ArgStorage st) = False"

definition thumbnails :: "pyarg \<Rightarrow> pyarg \<Rightarrow> pyarg \<Rightarrow> plugin_run" where
  "thumbnails profile log_func storage =
     (case profile of
        ArgProfile h \<Rightarrow>
          (case thumbnails_run h (is_callable log_func)
                  (case storage of ArgStorage st \<Rightarrow> Some st | _ \<Rightarrow> None) of
             (msgs, st', r) \<Rightarrow> \<lparr>logged = msgs, outcome = r\<rparr>)
      | _ \<Rightarrow> \<lparr>logged = [], outcome = Inl AttributeError\<rparr>)"

subsection \<open>timeline_usage\<close>

fun usage_records :: "session_rec list \<Rightarrow> py_exn + pydict list" where
  "usage_records [] = Inr []"
| "usage_records (r # rs) =
     (case py_int (ss_value r) of
        Inl e \<Rightarrow> Inl e
      | Inr ms \<Rightarrow>
          (case parse_unix_ms ms of
             Inl e \<Rightarrow> Inl e
           | Inr t \<Rightarrow>
               (case usage_records rs of
                  Inl e \<Rightarrow> Inl e
                | Inr ds \<Rightarrow>
                    Inr ([(''source'', PStr ''Session Storage''),
                          (''id'', PInt (leveldb_sequence_number r)),
                          (''type'', PStr ''Tab first start''),
                          (''timestamp'', PDatetime t)] # ds))))"

definition timeline_usage :: "pyarg \<Rightarrow> pyarg \<Rightarrow> pyarg \<Rightarrow> plugin_run" where
  "timeline_usage profile log_func storage =
     (case profile of
        ArgProfile h \<Rightarrow>
          \<lparr>logged = [],
           outcome =
             (case usage_records
                     (filter (\<lambda>r. host r = ''https://drive.google.com/'' \<and> ss_key r = ''ui:tabFirstStartTimeMsec'')
                        (session_storage (contents h))) of
                Inl e \<Rightarrow> Inl e
              | Inr results \<Rightarrow>
                  (case list_sort ''timestamp'' results of
                     Inl e \<Rightarrow> Inl e
                   | Inr sorted_results \<Rightarrow> Inr (ArtifactResult sorted_results)))\<rparr>
      | _ \<Rightarrow> \<lparr>logged = [], outcome = Inl AttributeError\<rparr>)"

text \<open>The plugin's \<open>__artifacts__\<close>.\<close>

definition google_drive_artifacts :: "ArtifactSpec list" where
  "google_drive_artifacts =
     [\<lparr>service = ''Google Drive'', name = ''Google Drive Files and Folders'',
       description = ''Recovers Google Drive and Docs folder and file names (and urls) from history records'',
       version = ''0.1'', func = def3 folders_and_files, presentation = table\<rparr>,
      \<lparr>service = ''Google Drive'', name = ''Google Drive Thumbnails'',
       description = ''Recovers Google Drive thumbnails from the cache'',
       version = ''0.1'', func = def3 thumbnails, presentation = table\<rparr>,
      \<lparr>service = ''Google Drive'', name = ''Google Drive Usage'',
       description = ''Recovers indications of Google Drive usage'',
       version = ''0.1'', func = def3 timeline_usage, presentation = table\<rparr>]"

section \<open>The ChatGPT plugin\<close>

text \<open>
  The plugin's \<open>__artifacts__\<close>. Its two functions,
  \<open>get_chatgpt_chatinfo(profile, log_func, storage)\<close> and
  \<open>get_chatgpt_userinfo(profile, log_func, storage)\<close>, take the same three
  parameters as those of the Google Drive plugin. Their bodies parse JSON from cache
  records and are not modelled: they stand as the parameters \<open>chatinfo_body\<close> and
  \<open>userinfo_body\<close>.
\<close>

definition chatgpt_artifacts ::
  "(pyarg \<Rightarrow> pyarg \<Rightarrow> pyarg \<Rightarrow> plugin_run) \<Rightarrow> (pyarg \<Rightarrow> pyarg \<Rightarrow> pyarg \<Rightarrow> plugin_run)
   \<Rightarrow> ArtifactSpec list" where
  "chatgpt_artifacts chatinfo_body userinfo_body =
     [\<lparr>service = ''ChatGPT'', name = ''ChatGPT Chat Information'',
       description = ''Recovers ChatGPT chat information from History and Cache'',
       version = ''0.1'', func = def3 chatinfo_body, presentation = table\<rparr>,
      \<lparr>service = ''ChatGPT'', name = ''ChatGPT User Information'',
       description = ''Recovers ChatGPT user information from Cache'',
       version = ''0.1'', func = def3 userinfo_body, presentation = table\<rparr>]"

section \<open>Sample data\<close>

text \<open>
  A small world and a few extraction units, for concrete runs: a profile folder
  \<open>profile\<close> in the current directory, a clock that stands still, units that accept
  any arguments (\<open>def f(*args)\<close>) and return fixed records or raise.
\<close>

definition frozen_clock :: "nat \<Rightarrow> clock_reading" where
  "frozen_clock n = \<lparr>iso = ''2026-01-01 12:00:00.000000'', compact = ''20260101_120000''\<rparr>"

definition sample_profile :: profile_data where
  "sample_profile =
     \<lparr>history =
        [\<lparr>rec_id = 1, url = ''https://drive.google.com/drive/folders/abc'',
          title = ''My Drive - Google Drive'', visit_time = 300, record_location = ''History 1''\<rparr>,
         \<lparr>rec_id = 2, url = ''https://docs.google.com/spreadsheets/d/xyz'',
          title = ''Budget - Google Sheets'', visit_time = 100, record_location = ''History 2''\<rparr>,
         \<lparr>rec_id = 3, url = ''https://example.com/'',
          title = ''Example'', visit_time = 50, record_location = ''History 3''\<rparr>],
      cache =
        [\<lparr>key_url = ''https://lh3.googleusercontent.com/fife/abc=w200-h190'',
          attributes = [(''content-disposition'', [''inline;filename='' @ [CHR 0x22] @ ''a.png'' @ [CHR 0x22]])],
          request_time = 70, response_time = 71, data = ''PNG1'', data_location = ''f_000001''\<rparr>,
         \<lparr>key_url = ''https://lh3.googleusercontent.com/fife/def=w64-h64'',
          attributes = [(''content-disposition'', [''inline;filename='' @ [CHR 0x22] @ ''b.png'' @ [CHR 0x22]])],
          request_time = 60, response_time = 61, data = ''PNG2'', data_location = ''f_000002''\<rparr>],
      session_storage =
        [\<lparr>host = ''https://drive.google.com/'', ss_key = ''ui:tabFirstStartTimeMsec'',
          ss_value = ''2000'', leveldb_sequence_number = 7\<rparr>,
         \<lparr>host = ''https://drive.google.com/'', ss_key = ''ui:tabFirstStartTimeMsec'',
          ss_value = ''1000'', leveldb_sequence_number = 9\<rparr>]\<rparr>"

definition sample_io :: io_state where
  "sample_io =
     \<lparr>fs = [[''profile''] \<mapsto> Dir], stdout = [], log_text = [], ticks = 0, timeline = frozen_clock\<rparr>"

definition sample_world :: world where
  "sample_world = \<lparr>io = sample_io, profile_store = (\<lambda>p. sample_profile), handle_events = []\<rparr>"

definition sample_storage :: ArtifactStorage where
  "sample_storage =
     \<lparr>storage_root = [''out'', ''Google Drive'', ''Google Drive Thumbnails''],
      naming = (\<lambda>used n. sanitize_filename n), issued = [], binary_outputs = []\<rparr>"

definition returning :: "pydict list \<Rightarrow> pyarg list \<Rightarrow> plugin_run" where
  "returning rs args = \<lparr>logged = [], outcome = Inr (ArtifactResult rs)\<rparr>"

definition raising :: "py_exn \<Rightarrow> pyarg list \<Rightarrow> plugin_run" where
  "raising e args = \<lparr>logged = [], outcome = Inl e\<rparr>"

definition unit_A :: ArtifactSpec where
  "unit_A =
     \<lparr>service = ''X'', name = ''A'', description = ''three records'', version = ''1'',
      func = returning [[(''n'', PInt 1)], [(''n'', PInt 2)], [(''n'', PInt 3)]], presentation = table\<rparr>"

definition unit_B :: ArtifactSpec where
  "unit_B =
     \<lparr>service = ''Y'', name = ''B'', description = ''no records'', version = ''1'',
      func = returning [], presentation = table\<rparr>"

definition unit_C :: ArtifactSpec where
  "unit_C =
     \<lparr>service = ''Z'', name = ''C'', description = ''raises'', version = ''1'',
      func = raising ValueError, presentation = table\<rparr>"

definition unit_D :: ArtifactSpec where
  "unit_D =
     \<lparr>service = ''X'', name = ''Chat/Info'', description = ''one record'', version = ''1'',
      func = returning [[(''n'', PInt 1)]], presentation = table\<rparr>"

definition unit_E :: ArtifactSpec where
  "unit_E =
     \<lparr>service = ''X'', name = ''Chat_Info'', description = ''one record'', version = ''1'',
      func = returning [[(''n'', PInt 2)]], presentation = table\<rparr>"

definition sample_module :: path where
  "sample_module = [''plugins'', ''sample_plugin.py'']"

definition sample_ms :: "ArtifactSpec list \<Rightarrow> MisterSkinnylegs" where
  "sample_ms specs =
     \<lparr>plugin_loader = map (\<lambda>s. (s, sample_module)) specs,
      profile_folder_path = [''profile''], log_callback = log_message\<rparr>"

section \<open>Lemmas about the orchestrator\<close>

declare mkdir_parents.simps [simp del]

declare str_nat.simps [simp del]

lemma run_artifact_ok:
  "outcome (call ms w spec (opened_count w)) = Inr res
   \<Longrightarrow> fst (run_artifact ms spec w) = Inr (spec, result_dict spec res)"
  by (simp add: run_artifact_def call_def ChromiumProfileFolder_enter_def Let_def)

lemma run_artifact_raises:
  "outcome (call ms w spec (opened_count w)) = Inl e
   \<Longrightarrow> fst (run_artifact ms spec w) = Inl e"
  by (simp add: run_artifact_def call_def ChromiumProfileFolder_enter_def Let_def)

lemma run_artifact_events:
  "handle_events (snd (run_artifact ms spec w)) = handle_events w @ [Opened (opened_count w), Closed (opened_count w)]"
  by (simp add: run_artifact_def ChromiumProfileFolder_enter_def ChromiumProfileFolder_exit_def Let_def split: sum.splits)

lemma run_artifact_store:
  "profile_store (snd (run_artifact ms spec w)) = profile_store w"
  by (simp add: run_artifact_def ChromiumProfileFolder_enter_def ChromiumProfileFolder_exit_def Let_def split: sum.splits)

lemma run_artifact_opened_count:
  "opened_count (snd (run_artifact ms spec w)) = Suc (opened_count w)"
  by (simp add: opened_count_def run_artifact_events)

lemma run_tasks_events:
  "handle_events (snd (run_tasks cs w)) =
     handle_events w @ concat (map (\<lambda>i. [Opened i, Closed i]) [opened_count w ..< opened_count w + length cs])"
proof (induction cs arbitrary: w)
  case Nil
  then show ?case by simp
next
  case (Cons c cs)
  obtain ms spec where c: "c = Coroutine_run_artifact ms spec" by (cases c)
  obtain r w1 where r: "run_artifact ms spec w = (r, w1)" by (cases "run_artifact ms spec w")
  have w1: "w1 = snd (run_artifact ms spec w)" using r by simp
  have ev: "handle_events w1 = handle_events w @ [Opened (opened_count w), Closed (opened_count w)]"
    unfolding w1 by (rule run_artifact_events)
  have oc: "opened_count w1 = Suc (opened_count w)"
    unfolding w1 by (rule run_artifact_opened_count)
  have "handle_events (snd (run_tasks (c # cs) w)) = handle_events (snd (run_tasks cs w1))"
    using c r by (simp split: prod.splits)
  also have "\<dots> = handle_events w1 @ concat (map (\<lambda>i. [Opened i, Closed i]) [opened_count w1 ..< opened_count w1 + length cs])"
    by (rule Cons.IH)
  also have "\<dots> = handle_events w @ concat (map (\<lambda>i. [Opened i, Closed i]) [opened_count w ..< opened_count w + length (c # cs)])"
    by (simp add: ev oc upt_conv_Cons del: upt_Suc)
  finally show ?case .
qed

lemma run_tasks_all_return:
  assumes "\<forall>spec\<in>set specs. \<forall>i. \<exists>res.
     outcome (call ms w spec (i)) = Inr res"
  shows "\<exists>ys. deliver (fst (run_tasks (map (Coroutine_run_artifact ms) specs) w)) = (ys, None) \<and> map fst ys = specs"
  using assms
proof (induction specs arbitrary: w)
  case Nil
  then show ?case by simp
next
  case (Cons spec specs)
  obtain res where res: "outcome (call ms w spec (opened_count w)) = Inr res"
    using Cons.prems by (meson list.set_intros(1))
  have hd: "fst (run_artifact ms spec w) = Inr (spec, result_dict spec res)"
    by (rule run_artifact_ok[OF res])
  let ?w1 = "snd (run_artifact ms spec w)"
  have "\<forall>s\<in>set specs. \<forall>i. \<exists>res.
     outcome (call ms ?w1 s (i)) = Inr res"
    using Cons.prems by (simp add: run_artifact_store call_def)
  from Cons.IH[OF this] obtain ys where
    ys: "deliver (fst (run_tasks (map (Coroutine_run_artifact ms) specs) ?w1)) = (ys, None)" "map fst ys = specs"
    by blast
  show ?case using hd ys by (simp add: case_prod_beta)
qed

lemma run_tasks_first_raise:
  assumes "\<forall>spec\<in>set pre. \<forall>i. \<exists>res.
     outcome (call ms w spec (i)) = Inr res"
    and "\<forall>i. outcome (call ms w bad (i)) = Inl e"
  shows "\<exists>ys. deliver (fst (run_tasks (map (Coroutine_run_artifact ms) (pre @ bad # post)) w)) = (ys, Some e) \<and> map fst ys = pre"
  using assms
proof (induction pre arbitrary: w)
  case Nil
  have "fst (run_artifact ms bad w) = Inl e"
    using Nil.prems(2) by (intro run_artifact_raises) simp
  then show ?case by (simp add: case_prod_beta)
next
  case (Cons spec pre)
  obtain res where res: "outcome (call ms w spec (opened_count w)) = Inr res"
    using Cons.prems(1) by (meson list.set_intros(1))
  have hd: "fst (run_artifact ms spec w) = Inr (spec, result_dict spec res)"
    by (rule run_artifact_ok[OF res])
  let ?w1 = "snd (run_artifact ms spec w)"
  have a: "\<forall>s\<in>set pre. \<forall>i. \<exists>res.
     outcome (call ms ?w1 s (i)) = Inr res"
    using Cons.prems(1) by (simp add: run_artifact_store call_def)
  have b: "\<forall>i. outcome (call ms ?w1 bad (i)) = Inl e"
    using Cons.prems(2) by (simp add: run_artifact_store call_def)
  from Cons.IH[OF a b] obtain ys where
    ys: "deliver (fst (run_tasks (map (Coroutine_run_artifact ms) (pre @ bad # post)) ?w1)) = (ys, Some e)" "map fst ys = pre"
    by blast
  show ?case using hd ys by (simp add: case_prod_beta)
qed

lemma scheduled_tasks:
  assumes "\<forall>i\<in>set order. i < length (artifacts ms)"
  shows "map (\<lambda>i. map (\<lambda>(spec, path). Coroutine_run_artifact ms spec) (artifacts ms) ! i) order
       = map (Coroutine_run_artifact ms) (map (\<lambda>i. fst (artifacts ms ! i)) order)"
  using assms by (simp add: case_prod_beta)

lemma run_all_unfold:
  assumes "\<forall>i\<in>set order. i < length (artifacts ms)"
  shows "run_all ms order w =
    (deliver (fst (run_tasks (map (Coroutine_run_artifact ms) (map (\<lambda>i. fst (artifacts ms ! i)) order)) w)),
     snd (run_tasks (map (Coroutine_run_artifact ms) (map (\<lambda>i. fst (artifacts ms ! i)) order)) w))"
  unfolding run_all_def Let_def scheduled_tasks[OF assms] by (simp add: case_prod_beta)

lemma perm_in_range:
  assumes "mset order = mset [0..<n]"
  shows "\<forall>i\<in>set order. i < n"
proof -
  have "set order = set [0..<n]" using assms by (metis set_mset_mset)
  then show ?thesis by simp
qed

lemma perm_entries:
  assumes "mset order = mset [0..<length xs]"
  shows "mset (map (\<lambda>i. f (xs ! i)) order) = mset (map f xs)"
proof -
  have e: "map (\<lambda>i. f (xs ! i)) [0..<length xs] = map f xs"
    by (rule nth_equalityI) simp_all
  have "mset (map (\<lambda>i. f (xs ! i)) order) = image_mset (\<lambda>i. f (xs ! i)) (mset order)"
    by (rule mset_map)
  also have "\<dots> = image_mset (\<lambda>i. f (xs ! i)) (mset [0..<length xs])"
    by (simp only: assms)
  also have "\<dots> = mset (map (\<lambda>i. f (xs ! i)) [0..<length xs])"
    by (rule mset_map[symmetric])
  finally show ?thesis by (simp only: e)
qed

lemma run_all_events:
  assumes "\<forall>i\<in>set order. i < length (artifacts ms)"
  shows "handle_events (snd (run_all ms order w)) =
     handle_events w @ concat (map (\<lambda>i. [Opened i, Closed i]) [opened_count w ..< opened_count w + length order])"
  using run_tasks_events[of "map (Coroutine_run_artifact ms) (map (\<lambda>i. fst (artifacts ms ! i)) order)" w]
  by (simp add: run_all_unfold[OF assms])

lemma run_artifact_result:
  "fst (run_artifact ms spec w) =
     (case outcome (call ms w spec (opened_count w)) of
        Inl e \<Rightarrow> Inl e
      | Inr res \<Rightarrow> Inr (spec, result_dict spec res))"
  by (cases "outcome (call ms w spec (opened_count w))")
     (simp_all add: run_artifact_ok run_artifact_raises)

lemma run_artifact_def3:
  "func spec = def3 body \<Longrightarrow> fst (run_artifact ms spec w) = Inl TypeError"
  by (rule run_artifact_raises) (simp add: call_def def3_def)

section \<open>The claims about the orchestrator\<close>

text \<open>
  Claim C2, corrected. The claim, for every catalog: \<open>run_all\<close> yields exactly one
  envelope per catalog entry, in completion order, and the sequence completes. It fails
  for a catalog with a unit that raises (one entry, no envelope). What holds: when
  every unit's call returns, the sequence ends without an exception and the envelopes
  come in the completion order \<open>order\<close>, one for each entry of the catalog.
\<close>

theorem run_all_one_envelope_per_entry:
  assumes "mset order = mset [0..<length (artifacts ms)]"
    and "\<forall>(spec, path)\<in>set (artifacts ms). \<forall>i. \<exists>res.
     outcome (call ms w spec (i)) = Inr res"
  shows "snd (fst (run_all ms order w)) = None
       \<and> map fst (fst (fst (run_all ms order w))) = map (\<lambda>i. fst (artifacts ms ! i)) order
       \<and> mset (map fst (fst (fst (run_all ms order w)))) = mset (map fst (artifacts ms))
       \<and> length (fst (fst (run_all ms order w))) = length (artifacts ms)"
proof -
  have rng: "\<forall>i\<in>set order. i < length (artifacts ms)"
    by (rule perm_in_range[OF assms(1)])
  let ?specs = "map (\<lambda>i. fst (artifacts ms ! i)) order"
  have "\<forall>spec\<in>set ?specs. \<forall>i. \<exists>res.
     outcome (call ms w spec (i)) = Inr res"
  proof
    fix spec assume "spec \<in> set ?specs"
    then obtain i where i: "i \<in> set order" "spec = fst (artifacts ms ! i)" by auto
    then have "artifacts ms ! i \<in> set (artifacts ms)" using rng by simp
    then show "\<forall>i. \<exists>res. outcome (call ms w spec (i)) = Inr res"
      using assms(2) i(2) by (auto simp: case_prod_beta)
  qed
  from run_tasks_all_return[OF this] obtain ys where
    ys: "deliver (fst (run_tasks (map (Coroutine_run_artifact ms) ?specs) w)) = (ys, None)" "map fst ys = ?specs"
    by blast
  have ra: "fst (run_all ms order w) = (ys, None)"
    using ys(1) by (simp add: run_all_unfold[OF rng])
  have len: "length ys = length order" using ys(2) by (metis length_map)
  have lo: "length order = length (artifacts ms)" using assms(1) by (metis size_mset length_upt diff_zero)
  show ?thesis
    using ra ys(2) perm_entries[OF assms(1), of fst] len lo by simp
qed

theorem run_all_one_envelope_per_entry_witness:
  "mset [1, 0] = mset [0..<length (artifacts (sample_ms [unit_A, unit_B]))]
   \<and> snd (fst (run_all (sample_ms [unit_A, unit_B]) [1, 0] sample_world)) = None
   \<and> map fst (fst (fst (run_all (sample_ms [unit_A, unit_B]) [1, 0] sample_world))) = [unit_B, unit_A]
   \<and> length (fst (fst (run_all (sample_ms [unit_A, unit_B]) [1, 0] sample_world))) = 2"
proof -
  have h1: "mset [1, 0] = mset [0..<length (artifacts (sample_ms [unit_A, unit_B]))]"
    by (simp add: artifacts_def sample_ms_def upt_conv_Cons)
  have h2: "\<forall>(spec, path)\<in>set (artifacts (sample_ms [unit_A, unit_B])). \<forall>i. \<exists>res.
              outcome (call (sample_ms [unit_A, unit_B]) sample_world spec i) = Inr res"
    by (simp add: artifacts_def sample_ms_def call_def unit_A_def unit_B_def returning_def)
  show ?thesis
    using run_all_one_envelope_per_entry[OF h1 h2] h1
    by (simp add: artifacts_def sample_ms_def)
qed

theorem run_all_raising_unit_counterexample:
  "fst (run_all (sample_ms [unit_C]) [0] sample_world) = ([], Some ValueError)
   \<and> length (artifacts (sample_ms [unit_C])) = 1"
  by (simp add: run_all_def run_artifact_def artifacts_def sample_ms_def unit_C_def raising_def
      ChromiumProfileFolder_enter_def ChromiumProfileFolder_exit_def)

text \<open>
  Claim C3, corrected. The claim: when a unit raises, \<open>run_all\<close> still yields the
  envelopes of all other units. It fails: the unit after the raising one returns
  its records, and no envelope is yielded for it. What holds: if the \<open>k\<close>-th
  invocation in completion order is the first that raises, \<open>run_all\<close> yields the
  envelopes of the \<open>k\<close> invocations before it and then raises that exception in the
  consumer; the later invocations have run (their handles were opened and closed), and
  their envelopes are not yielded.
\<close>

theorem run_all_stops_at_first_raise:
  assumes "\<forall>i\<in>set order. i < length (artifacts ms)"
    and "k < length order"
    and "\<forall>j<k. \<forall>i. \<exists>res. outcome (call ms w (fst (artifacts ms ! (order ! j))) i) = Inr res"
    and "\<forall>i. outcome (call ms w (fst (artifacts ms ! (order ! k))) i) = Inl e"
  shows "snd (fst (run_all ms order w)) = Some e
       \<and> map fst (fst (fst (run_all ms order w))) = map (\<lambda>i. fst (artifacts ms ! i)) (take k order)
       \<and> handle_events (snd (run_all ms order w)) =
           handle_events w @ concat (map (\<lambda>i. [Opened i, Closed i]) [opened_count w ..< opened_count w + length order])"
proof -
  let ?f = "\<lambda>i. fst (artifacts ms ! i)"
  have split: "map ?f order = map ?f (take k order) @ ?f (order ! k) # map ?f (drop (Suc k) order)"
    using assms(2) by (metis id_take_nth_drop list.simps(9) map_append)
  have pre: "\<forall>spec\<in>set (map ?f (take k order)). \<forall>i. \<exists>res. outcome (call ms w spec i) = Inr res"
  proof
    fix spec assume "spec \<in> set (map ?f (take k order))"
    then obtain j where j: "j < length (take k order)" "spec = ?f (take k order ! j)"
      by (auto simp: in_set_conv_nth)
    then have "j < k" "spec = ?f (order ! j)" by simp_all
    then show "\<forall>i. \<exists>res. outcome (call ms w spec i) = Inr res" using assms(3) by simp
  qed
  from run_tasks_first_raise[OF pre assms(4), of "map ?f (drop (Suc k) order)"] obtain ys where
    ys: "deliver (fst (run_tasks (map (Coroutine_run_artifact ms) (map ?f order)) w)) = (ys, Some e)"
        "map fst ys = map ?f (take k order)"
    unfolding split by blast
  have "fst (run_all ms order w) = (ys, Some e)"
    using ys(1) by (simp add: run_all_unfold[OF assms(1)])
  then show ?thesis using ys(2) run_all_events[OF assms(1)] by simp
qed

theorem run_all_stops_at_first_raise_witness:
  "fst (run_all (sample_ms [unit_A, unit_C, unit_B]) [0, 1, 2] sample_world)
     = ([(unit_A, result_dict unit_A (ArtifactResult [[(''n'', PInt 1)], [(''n'', PInt 2)], [(''n'', PInt 3)]]))],
        Some ValueError)
   \<and> snd (fst (run_all (sample_ms [unit_A, unit_C, unit_B]) [0, 1, 2] sample_world)) = Some ValueError
   \<and> map fst (fst (fst (run_all (sample_ms [unit_A, unit_C, unit_B]) [0, 1, 2] sample_world))) = [unit_A]
   \<and> handle_events (snd (run_all (sample_ms [unit_A, unit_C, unit_B]) [0, 1, 2] sample_world))
       = [Opened 0, Closed 0, Opened 1, Closed 1, Opened 2, Closed 2]"
proof -
  let ?ms = "sample_ms [unit_A, unit_C, unit_B]"
  have h1: "\<forall>i\<in>set [0, 1, 2]. i < length (artifacts ?ms)"
    by (simp add: artifacts_def sample_ms_def)
  have h2: "(1::nat) < length [0::nat, 1, 2]" by simp
  have h3: "\<forall>j<1. \<forall>i. \<exists>res. outcome (call ?ms sample_world (fst (artifacts ?ms ! ([0, 1, 2] ! j))) i) = Inr res"
    by (simp add: artifacts_def sample_ms_def call_def unit_A_def returning_def)
  have h4: "\<forall>i. outcome (call ?ms sample_world (fst (artifacts ?ms ! ([0, 1, 2] ! 1))) i) = Inl ValueError"
    by (simp add: artifacts_def sample_ms_def call_def unit_C_def raising_def)
  have ev: "fst (run_all ?ms [0, 1, 2] sample_world)
     = ([(unit_A, result_dict unit_A (ArtifactResult [[(''n'', PInt 1)], [(''n'', PInt 2)], [(''n'', PInt 3)]]))],
        Some ValueError)"
    by (simp add: run_all_def run_artifact_def artifacts_def sample_ms_def unit_A_def unit_B_def unit_C_def
        raising_def returning_def ChromiumProfileFolder_enter_def ChromiumProfileFolder_exit_def)
  show ?thesis
    using run_all_stops_at_first_raise[OF h1 h2 h3 h4] ev
    by (simp add: artifacts_def sample_ms_def sample_world_def opened_count_def upt_conv_Cons)
qed

theorem run_all_later_units_lost_counterexample:
  "fst (run_all (sample_ms [unit_C, unit_A]) [0, 1] sample_world) = ([], Some ValueError)
   \<and> outcome (call (sample_ms [unit_C, unit_A]) sample_world unit_A 1)
       = Inr (ArtifactResult [[(''n'', PInt 1)], [(''n'', PInt 2)], [(''n'', PInt 3)]])"
  by (simp add: run_all_def run_artifact_def call_def artifacts_def sample_ms_def unit_A_def unit_C_def
      raising_def returning_def ChromiumProfileFolder_enter_def ChromiumProfileFolder_exit_def)

text \<open>
  Claim C6, confirmed. When the extraction function returns, \<open>_run_artifact\<close>
  returns the descriptor with the dictionary of the five keys \<open>artifact_service\<close>,
  \<open>artifact_name\<close>, \<open>artifact_version\<close>, \<open>artifact_description\<close> and
  \<open>result\<close>: the first four hold the descriptor's service, name, version and
  description, the last holds the records of the \<open>ArtifactResult\<close> returned.
\<close>

theorem run_artifact_envelope:
  assumes "outcome (call ms w spec (opened_count w)) = Inr res"
  shows "fst (run_artifact ms spec w) =
           Inr (spec,
                [(''artifact_service'', PStr (service spec)),
                 (''artifact_name'', PStr (name spec)),
                 (''artifact_version'', PStr (version spec)),
                 (''artifact_description'', PStr (description spec)),
                 (''result'', PList (map PDict (result res)))])"
  using run_artifact_ok[OF assms] by (simp add: result_dict_def)

theorem run_artifact_envelope_witness:
  "outcome (call (sample_ms [unit_A]) sample_world unit_A (opened_count sample_world))
     = Inr (ArtifactResult [[(''n'', PInt 1)], [(''n'', PInt 2)], [(''n'', PInt 3)]])
   \<and> fst (run_artifact (sample_ms [unit_A]) unit_A sample_world) =
           Inr (unit_A,
                [(''artifact_service'', PStr ''X''),
                 (''artifact_name'', PStr ''A''),
                 (''artifact_version'', PStr ''1''),
                 (''artifact_description'', PStr ''three records''),
                 (''result'', PList [PDict [(''n'', PInt 1)], PDict [(''n'', PInt 2)], PDict [(''n'', PInt 3)]])])"
proof -
  have h: "outcome (call (sample_ms [unit_A]) sample_world unit_A (opened_count sample_world))
     = Inr (ArtifactResult [[(''n'', PInt 1)], [(''n'', PInt 2)], [(''n'', PInt 3)]])"
    by (simp add: call_def unit_A_def returning_def)
  show ?thesis
    using run_artifact_envelope[OF h] h by (simp add: unit_A_def)
qed

text \<open>
  Claim C8, confirmed. Whatever the extraction function does (its outcome is returned
  as it is, a result or an exception), \<open>_run_artifact\<close> opens one profile handle
  and closes it before it ends. In \<open>run_all\<close> every invocation gets a handle of
  its own, with a new number, closed before the next one is opened.
\<close>

theorem profile_handle_released:
  assumes "\<forall>i\<in>set order. i < length (artifacts ms)"
  shows "fst (run_artifact ms spec w) =
           (case outcome (call ms w spec (opened_count w)) of
              Inl e \<Rightarrow> Inl e
            | Inr res \<Rightarrow> Inr (spec, result_dict spec res))
       \<and> handle_events (snd (run_artifact ms spec w))
           = handle_events w @ [Opened (opened_count w), Closed (opened_count w)]
       \<and> handle_events (snd (run_all ms order w))
           = handle_events w @ concat (map (\<lambda>i. [Opened i, Closed i]) [opened_count w ..< opened_count w + length order])"
  using run_artifact_result run_artifact_events run_all_events[OF assms] by simp

theorem profile_handle_released_witness:
  "fst (run_artifact (sample_ms [unit_A, unit_C]) unit_C sample_world) = Inl ValueError
   \<and> handle_events (snd (run_artifact (sample_ms [unit_A, unit_C]) unit_C sample_world)) = [Opened 0, Closed 0]
   \<and> handle_events (snd (run_artifact (sample_ms [unit_A, unit_C]) unit_A sample_world)) = [Opened 0, Closed 0]
   \<and> handle_events (snd (run_all (sample_ms [unit_A, unit_C]) [1, 0] sample_world))
       = [Opened 0, Closed 0, Opened 1, Closed 1]"
proof -
  let ?ms = "sample_ms [unit_A, unit_C]"
  have h: "\<forall>i\<in>set [1, 0]. i < length (artifacts ?ms)"
    by (simp add: artifacts_def sample_ms_def)
  show ?thesis
    using profile_handle_released[OF h, of unit_C sample_world]
      profile_handle_released[OF h, of unit_A sample_world]
    by (simp add: call_def unit_C_def raising_def sample_world_def opened_count_def upt_conv_Cons)
qed

text \<open>
  Claim C1, a defect of the code. The claim has the extraction function called with
  three arguments, the third a storage handle. \<open>_run_artifact\<close> makes no storage
  handle and passes two arguments; the functions of the plugins take three, so each of
  the three Google Drive units and of the two ChatGPT units raises \<open>TypeError\<close>
  before its body runs, in every world and for every orchestrator.
\<close>

theorem run_artifact_plugins_type_error:
  "fst (run_artifact ms (google_drive_artifacts ! 0) w) = Inl TypeError
   \<and> fst (run_artifact ms (google_drive_artifacts ! 1) w) = Inl TypeError
   \<and> fst (run_artifact ms (google_drive_artifacts ! 2) w) = Inl TypeError
   \<and> fst (run_artifact ms (chatgpt_artifacts chatinfo_body userinfo_body ! 0) w) = Inl TypeError
   \<and> fst (run_artifact ms (chatgpt_artifacts chatinfo_body userinfo_body ! 1) w) = Inl TypeError"
  by (simp add: google_drive_artifacts_def chatgpt_artifacts_def run_artifact_def3)

text \<open>
  Claim C4, a defect of the code. The claim has \<open>run_one\<close> run the unit to its end
  and return its result. For a name of the catalog \<open>run_one\<close> returns the
  descriptor with the coroutine of \<open>_run_artifact\<close>, which was never started: the
  world is as before, no profile was opened and the extraction function was not called.
\<close>

theorem run_one_returns_coroutine:
  assumes "loader_getitem (plugin_loader ms) artifact_name = Inr (spec, path)"
  shows "run_one ms artifact_name w = (Inr (spec, Coroutine_run_artifact ms spec), w)"
  using assms by (simp add: run_one_def)

theorem run_one_returns_coroutine_witness:
  "loader_getitem (plugin_loader (sample_ms [unit_A])) ''A'' = Inr (unit_A, sample_module)
   \<and> run_one (sample_ms [unit_A]) ''A'' sample_world
       = (Inr (unit_A, Coroutine_run_artifact (sample_ms [unit_A]) unit_A), sample_world)"
proof -
  have h: "loader_getitem (plugin_loader (sample_ms [unit_A])) ''A'' = Inr (unit_A, sample_module)"
    by (simp add: loader_getitem_def sample_ms_def unit_A_def)
  show ?thesis using run_one_returns_coroutine[OF h] h by simp
qed

section \<open>Lemmas about the file system and main\<close>

lemma not_exists_None: "\<not> path_exists f p \<Longrightarrow> f p = None"
  by (auto simp: path_exists_def lookup_def split: if_splits)

lemma os_mkdir_Inr: "os_mkdir f p = Inr f' \<Longrightarrow> f p = None \<and> f' = f(p \<mapsto> Dir)"
  by (auto simp: os_mkdir_def not_exists_None split: if_splits option.splits node.splits)

lemma open_xt_Inr: "open_xt f p = Inr f' \<Longrightarrow> f p = None \<and> f' = f(p \<mapsto> File [])"
  by (auto simp: open_xt_def not_exists_None split: if_splits option.splits node.splits)

lemma open_xt_exists: "path_exists f p \<Longrightarrow> open_xt f p = Inl FileExistsError"
  by (simp add: open_xt_def)

lemma mkdir_Inr: "mkdir f p e = Inr f' \<Longrightarrow> (f' = f \<and> is_dir f p) \<or> (f p = None \<and> f' = f(p \<mapsto> Dir))"
  by (auto simp: mkdir_def dest: os_mkdir_Inr split: sum.splits if_splits)

lemma is_dir_upd: "is_dir (f(p \<mapsto> Dir)) p"
  by (simp add: is_dir_def lookup_def)

lemma mkdir_is_dir: "mkdir f p e = Inr f' \<Longrightarrow> is_dir f' p"
  by (auto dest: mkdir_Inr simp: is_dir_upd)

lemma mkdir_keeps: "mkdir f p e = Inr f' \<Longrightarrow> f q = Some n \<Longrightarrow> f' q = Some n"
  by (auto dest!: mkdir_Inr)

lemma open_xt_keeps: "open_xt f p = Inr f' \<Longrightarrow> f q = Some n \<Longrightarrow> f' q = Some n"
  by (auto dest!: open_xt_Inr)

lemma mkdir_parents_is_dir: "mkdir_parents f p e = Inr f' \<Longrightarrow> is_dir f' p"
proof (induction f p e arbitrary: f' rule: mkdir_parents.induct)
  case (1 f p exist_ok)
  show ?case
  proof (cases "os_mkdir f p")
    case (Inr g)
    then have "f' = g" using "1.prems" by (simp add: mkdir_parents.simps)
    then show ?thesis using os_mkdir_Inr[OF Inr] by (simp add: is_dir_def lookup_def)
  next
    case (Inl x)
    then show ?thesis using "1.prems"
      by (auto simp: mkdir_parents.simps[of f p exist_ok] dest: mkdir_is_dir split: if_splits sum.splits)
  qed
qed

lemma mkdir_parents_keeps: "mkdir_parents f p e = Inr f' \<Longrightarrow> f q = Some n \<Longrightarrow> f' q = Some n"
proof (induction f p e arbitrary: f' rule: mkdir_parents.induct)
  case (1 f p exist_ok)
  show ?case
  proof (cases "os_mkdir f p")
    case (Inr g)
    then have "f' = g" using "1.prems" by (simp add: mkdir_parents.simps)
    then show ?thesis using os_mkdir_Inr[OF Inr] "1.prems"(2) by auto
  next
    case (Inl x)
    show ?thesis
    proof (cases "x = FileNotFoundError")
      case True
      then obtain f1 where f1: "path_parent p \<noteq> p" "mkdir_parents f (path_parent p) True = Inr f1" "mkdir f1 p exist_ok = Inr f'"
        using "1.prems"(1) Inl
        by (auto simp: mkdir_parents.simps[of f p exist_ok] split: if_splits sum.splits)
      have "f1 q = Some n"
        using "1.IH"[OF Inl True f1(1) f1(2) "1.prems"(2)] .
      then show ?thesis using mkdir_keeps[OF f1(3)] by simp
    next
      case False
      then have "f' = f" using "1.prems"(1) Inl
        by (auto simp: mkdir_parents.simps[of f p exist_ok] split: if_splits)
      then show ?thesis using "1.prems"(2) by simp
    qed
  qed
qed

lemma fs_print [simp]: "fs (print x s) = fs s"
  by (simp add: print_def)

lemma fs_log_message [simp]: "fs (log_message m s) = fs s"
  by (simp add: log_message_def now_def print_def Let_def)

lemma main_startup_no_profile:
  "\<not> is_dir (fs s) (Path a0) \<Longrightarrow>
   main_startup plugin_modules (a0 # a1 # rest) s = (Inl NotADirectoryError, print Banner s)"
  by (simp add: main_startup_def Let_def)

lemma main_startup_output_exists:
  "is_dir (fs s) (Path a0) \<Longrightarrow> path_exists (fs s) (Path a1) \<Longrightarrow>
   main_startup plugin_modules (a0 # a1 # rest) s = (Inl FileExistsError, print Banner s)"
  by (simp add: main_startup_def Let_def)

lemma main_startup_duplicate:
  assumes "is_dir (fs s) (Path a0)" and "\<not> path_exists (fs s) (Path a1)"
    and "mkdir_parents (fs s) (Path a1) False = Inr f2"
    and "open_xt f2 (path_div (Path a1) (''log_'' @ compact (timeline s (ticks s)) @ ''.log'')) = Inr f3"
    and "PluginLoader plugin_modules = Inl DuplicateArtifactName"
  shows "main_startup plugin_modules (a0 # a1 # rest) s
         = (Inl DuplicateArtifactName, (print Banner s)\<lparr>fs := f3, ticks := Suc (ticks s)\<rparr>)"
  using assms
  by (simp add: main_startup_def Let_def now_def SimpleLog_init_def MisterSkinnylegs_init_def print_def)

lemma sample_mkdir_out: "mkdir_parents [[''profile''] \<mapsto> Dir] [''out''] False = Inr [[''profile''] \<mapsto> Dir, [''out''] \<mapsto> Dir]"
  by (simp add: mkdir_parents.simps os_mkdir_def path_exists_def lookup_def is_root_def path_parent_def)

lemma result_dict_result:
  "dict_getitem (result_dict spec r) ''result'' = Inr (PList (map PDict (result r)))"
  by (simp add: result_dict_def dict_getitem_def)

lemma process_result_skip:
  assumes "dict_getitem res ''result'' = Inr v" and "\<not> truthy v"
  shows "process_result sanitize out (spec, res) s
         = (None, log_message (name spec @ '' had not results, skipping'')
                    (log_message (''Results acquired for '' @ name spec) s))"
  using assms by (simp add: process_result_def Let_def)

lemma process_result_write:
  assumes "dict_getitem res ''result'' = Inr v" and "truthy v"
    and "mkdir (fs s) (path_div out (sanitize (service spec))) True = Inr f2"
    and "open_xt f2 (path_div (path_div out (sanitize (service spec))) (sanitize (name spec) @ ''.json'')) = Inr f4"
    and "json_emit (PDict res) = (doc, ok)"
  shows "process_result sanitize out (spec, res) s
         = (if ok then None else Some TypeError,
            (log_message (''Generating output at ''
                 @ path_str (path_div (path_div out (sanitize (service spec))) (sanitize (name spec) @ ''.json'')))
               ((log_message (''Results acquired for '' @ name spec) s)\<lparr>fs := f2\<rparr>))
            \<lparr>fs := f2(path_div (path_div out (sanitize (service spec))) (sanitize (name spec) @ ''.json'') \<mapsto> File doc)\<rparr>)"
  using assms(1,2,3,5) open_xt_Inr[OF assms(4)] assms(4)
  by (simp add: process_result_def Let_def)

lemma process_result_target_exists:
  assumes "dict_getitem res ''result'' = Inr v" and "truthy v"
    and "mkdir (fs s) (path_div out (sanitize (service spec))) True = Inr f2"
    and "path_exists f2 (path_div (path_div out (sanitize (service spec))) (sanitize (name spec) @ ''.json''))"
  shows "process_result sanitize out (spec, res) s
         = (Some FileExistsError,
            log_message (''Generating output at ''
                 @ path_str (path_div (path_div out (sanitize (service spec))) (sanitize (name spec) @ ''.json'')))
               ((log_message (''Results acquired for '' @ name spec) s)\<lparr>fs := f2\<rparr>))"
  using assms(1,2,3) open_xt_exists[OF assms(4)]
  by (simp add: process_result_def Let_def)

lemma sample_startup:
  "main_startup [(sample_module, specs)] [''profile'', ''out''] sample_io =
     (if distinct (map name specs)
      then Inr (sample_ms specs, [''out''])
      else Inl DuplicateArtifactName,
      \<lparr>fs = [[''profile''] \<mapsto> Dir, [''out''] \<mapsto> Dir, [''out'', ''log_20260101_120000.log''] \<mapsto> File []],
       stdout = [Banner], log_text = [], ticks = 1, timeline = frozen_clock\<rparr>)"
  by (simp add: main_startup_def sample_io_def Path_def path_root_def print_def
      is_dir_def path_exists_def lookup_def is_root_def sample_mkdir_out now_def frozen_clock_def
      SimpleLog_init_def open_xt_def path_div_def path_parent_def MisterSkinnylegs_init_def
      PluginLoader_def Let_def sample_ms_def comp_def case_prod_beta)

lemma fs_fold_callback:
  assumes "\<And>m s. fs (cb m s) = fs s"
  shows "fs (fold cb ms s) = fs s"
  by (induction ms arbitrary: s) (simp_all add: assms)

lemma run_artifact_fs:
  assumes "\<And>m s. fs (log_callback ms m s) = fs s"
  shows "fs (io (snd (run_artifact ms spec w))) = fs (io w)"
  by (simp add: run_artifact_def ChromiumProfileFolder_enter_def ChromiumProfileFolder_exit_def Let_def
      fs_fold_callback[of "log_callback ms", OF assms] split: sum.splits)

lemma run_tasks_fs:
  assumes "\<And>m s. fs (log_callback ms m s) = fs s"
  shows "fs (io (snd (run_tasks (map (Coroutine_run_artifact ms) specs) w))) = fs (io w)"
proof (induction specs arbitrary: w)
  case Nil
  then show ?case by simp
next
  case (Cons spec specs)
  show ?case
    using Cons.IH[of "snd (run_artifact ms spec w)"] run_artifact_fs[of ms spec w, OF assms]
    by (simp add: case_prod_beta)
qed

lemma run_all_fs:
  assumes "\<And>m s. fs (log_callback ms m s) = fs s"
    and "\<forall>i\<in>set order. i < length (artifacts ms)"
  shows "fs (io (snd (run_all ms order w))) = fs (io w)"
  using run_tasks_fs[of ms "map (\<lambda>i. fst (artifacts ms ! i)) order" w, OF assms(1)]
  by (simp only: run_all_unfold[OF assms(2)] snd_conv)

lemma fs_main_opening [simp]: "fs (main_opening ms s) = fs s"
  by (simp add: main_opening_def Let_def fs_fold_callback case_prod_beta)

lemma process_result_keeps:
  assumes "fs s q = Some n"
  shows "fs (snd (process_result sanitize out sr s)) q = Some n"
proof -
  obtain spec res where sr: "sr = (spec, res)" by (cases sr)
  let ?d = "path_div out (sanitize (service spec))"
  let ?t = "path_div ?d (sanitize (name spec) @ ''.json'')"
  show ?thesis
  proof (cases "dict_getitem res ''result''")
    case (Inl e)
    then show ?thesis using assms sr by (simp add: process_result_def Let_def)
  next
    case (Inr v)
    show ?thesis
    proof (cases "truthy v")
      case False
      then show ?thesis using assms sr Inr by (simp add: process_result_skip)
    next
      case True
      show ?thesis
      proof (cases "mkdir (fs s) ?d True")
        case (Inl e)
        then show ?thesis using assms sr Inr True by (simp add: process_result_def Let_def)
      next
        case m: (Inr f2)
        have k2: "f2 q = Some n" using mkdir_keeps[OF m assms] .
        show ?thesis
        proof (cases "open_xt f2 ?t")
          case (Inl e)
          then show ?thesis using sr Inr True m k2 by (simp add: process_result_def Let_def)
        next
          case o: (Inr f4)
          obtain doc ok where j: "json_emit (PDict res) = (doc, ok)" by (cases "json_emit (PDict res)")
          have "f2 ?t = None" using open_xt_Inr[OF o] by simp
          then have "q \<noteq> ?t" using k2 by auto
          then show ?thesis
            using k2 sr by (simp add: process_result_write[OF Inr True m o j])
        qed
      qed
    qed
  qed
qed

lemma consume_keeps:
  "fs s q = Some n \<Longrightarrow> fs (snd (consume sanitize out srs s)) q = Some n"
proof (induction srs arbitrary: s)
  case Nil
  then show ?case by simp
next
  case (Cons sr srs)
  obtain r s' where p: "process_result sanitize out sr s = (r, s')" by (cases "process_result sanitize out sr s")
  have k: "fs s' q = Some n" using process_result_keeps[OF Cons.prems, of sanitize out sr] p by simp
  show ?case
  proof (cases r)
    case None
    then show ?thesis using p Cons.IH[OF k] by simp
  next
    case (Some e)
    then show ?thesis using p k by simp
  qed
qed

lemma SimpleLog_init_keeps:
  "SimpleLog_init p s = Inr (l, s') \<Longrightarrow> fs s q = Some n \<Longrightarrow> fs s' q = Some n"
  by (auto simp: SimpleLog_init_def split: sum.splits dest: open_xt_keeps)

lemma SimpleLog_init_exists:
  "path_exists (fs s) p \<Longrightarrow> SimpleLog_init p s = Inl FileExistsError"
  by (simp add: SimpleLog_init_def open_xt_exists)

lemma main_startup_keeps:
  assumes "fs s q = Some n"
  shows "fs (snd (main_startup plugin_modules args s)) q = Some n"
proof (cases args)
  case Nil
  then show ?thesis using assms by (simp add: main_startup_def)
next
  case (Cons a0 as)
  show ?thesis
  proof (cases as)
    case Nil
    then show ?thesis using assms Cons by (simp add: main_startup_def)
  next
    case c2: (Cons a1 rest)
    let ?s1 = "print Banner s"
    show ?thesis
    proof (cases "mkdir_parents (fs ?s1) (Path a1) False")
      case (Inl e)
      then show ?thesis using assms Cons c2 by (simp add: main_startup_def Let_def)
    next
      case m: (Inr f2)
      have k2: "f2 q = Some n" using mkdir_parents_keeps[OF m] assms by simp
      let ?s3 = "snd (now (?s1\<lparr>fs := f2\<rparr>))"
      let ?lp = "path_div (Path a1) (''log_'' @ compact (fst (now (?s1\<lparr>fs := f2\<rparr>))) @ ''.log'')"
      have k3: "fs ?s3 q = Some n" using k2 by (simp add: now_def)
      show ?thesis
      proof (cases "SimpleLog_init ?lp ?s3")
        case (Inl e)
        then show ?thesis using assms Cons c2 m k3
          by (simp add: main_startup_def Let_def case_prod_beta)
      next
        case l: (Inr ls)
        obtain lf s4 where ls: "ls = (lf, s4)" by (cases ls)
        have k4: "fs s4 q = Some n" using SimpleLog_init_keeps[OF l[unfolded ls] k3] .
        show ?thesis using assms Cons c2 m l ls k4
          by (simp add: main_startup_def Let_def case_prod_beta split: sum.splits)
      qed
    qed
  qed
qed

lemma PluginLoader_length:
  "PluginLoader plugin_modules = Inr cat \<Longrightarrow> length cat = length (concat (map snd plugin_modules))"
proof -
  have "length (concat (map (\<lambda>(p, specs). map (\<lambda>s. (s, p)) specs) plugin_modules))
        = length (concat (map snd plugin_modules))"
    by (induction plugin_modules) (simp_all add: case_prod_beta)
  then show "PluginLoader plugin_modules = Inr cat \<Longrightarrow> ?thesis"
    by (auto simp: PluginLoader_def Let_def split: if_splits)
qed

lemma main_startup_Inr:
  assumes "main_startup plugin_modules args s = (Inr (ms, out), s')"
  shows "log_callback ms = log_message \<and> PluginLoader plugin_modules = Inr (plugin_loader ms)"
  using assms
  by (auto simp: main_startup_def Let_def case_prod_beta MisterSkinnylegs_init_def
      split: list.splits if_splits sum.splits)

lemma main_report_keeps:
  assumes "log_callback ms = log_message"
    and "\<forall>i\<in>set order. i < length (artifacts ms)"
    and "fs (io w) q = Some n"
  shows "fs (io (snd (main_report sanitize order ms out w))) q = Some n"
proof -
  let ?w8 = "w\<lparr>io := main_opening ms (io w)\<rparr>"
  have cb: "\<And>m s. fs (log_callback ms m s) = fs s" by (simp add: assms(1))
  have k9: "fs (io (snd (run_all ms order ?w8))) q = Some n"
    using run_all_fs[of ms order ?w8, OF cb assms(2)] assms(3) by simp
  obtain yielded raised w9 where r: "run_all ms order ?w8 = ((yielded, raised), w9)"
    by (cases "run_all ms order ?w8") auto
  have k9': "fs (io w9) q = Some n" using k9 r by simp
  obtain e s10 where c: "consume sanitize out yielded (io w9) = (e, s10)"
    by (cases "consume sanitize out yielded (io w9)")
  have "fs s10 q = Some n" using consume_keeps[OF k9', of sanitize out yielded] c by simp
  then show ?thesis using r c by (simp add: main_report_def split: option.splits)
qed

lemma main_keeps:
  assumes "\<forall>i\<in>set order. i < length (concat (map snd plugin_modules))"
    and "fs (io w) q = Some n"
  shows "fs (io (snd (main sanitize plugin_modules order args w))) q = Some n"
proof -
  obtain r s' where st: "main_startup plugin_modules args (io w) = (r, s')"
    by (cases "main_startup plugin_modules args (io w)")
  have k: "fs s' q = Some n" using main_startup_keeps[OF assms(2), of plugin_modules args] st by simp
  show ?thesis
  proof (cases r)
    case (Inl e)
    then show ?thesis using st k by (simp add: main_def)
  next
    case (Inr mo)
    obtain ms out where mo: "mo = (ms, out)" by (cases mo)
    have f: "log_callback ms = log_message" "PluginLoader plugin_modules = Inr (plugin_loader ms)"
      using main_startup_Inr[OF st[unfolded Inr mo]] by simp_all
    have rng: "\<forall>i\<in>set order. i < length (artifacts ms)"
      using assms(1) PluginLoader_length[OF f(2)] by (simp add: artifacts_def)
    have "fs (io (snd (main_report sanitize order ms out (w\<lparr>io := s'\<rparr>)))) q = Some n"
      using main_report_keeps[OF f(1) rng, of "w\<lparr>io := s'\<rparr>" q n sanitize out] k by simp
    then show ?thesis using st Inr mo by (simp add: main_def)
  qed
qed

text \<open>
  A record with a timestamp, as the Google Drive units build them: the report file is
  created, the document is written up to the timestamp, and the loop body raises
  \<open>TypeError\<close>.
\<close>

lemma report_datetime_truncated:
  "fst (process_result sanitize_filename [''out'']
          (unit_A, result_dict unit_A (ArtifactResult [[(''id'', PInt 7), (''timestamp'', PDatetime 1000000)]]))
          (sample_io\<lparr>fs := [[''profile''] \<mapsto> Dir, [''out''] \<mapsto> Dir]\<rparr>)) = Some TypeError
   \<and> fs (snd (process_result sanitize_filename [''out'']
          (unit_A, result_dict unit_A (ArtifactResult [[(''id'', PInt 7), (''timestamp'', PDatetime 1000000)]]))
          (sample_io\<lparr>fs := [[''profile''] \<mapsto> Dir, [''out''] \<mapsto> Dir]\<rparr>))) [''out'', ''X'', ''A.json'']
     = Some (File (''{'' @ json_str ''artifact_service'' @ '': '' @ json_str ''X''
                   @ '', '' @ json_str ''artifact_name'' @ '': '' @ json_str ''A''
                   @ '', '' @ json_str ''artifact_version'' @ '': '' @ json_str ''1''
                   @ '', '' @ json_str ''artifact_description'' @ '': '' @ json_str ''three records''
                   @ '', '' @ json_str ''result'' @ '': [{'' @ json_str ''id'' @ '': '' @ str_int 7 @ '', ''
                   @ json_str ''timestamp'' @ '': ''))"
proof -
  let ?r = "ArtifactResult [[(''id'', PInt 7), (''timestamp'', PDatetime 1000000)]]"
  let ?s = "sample_io\<lparr>fs := [[''profile''] \<mapsto> Dir, [''out''] \<mapsto> Dir]\<rparr>"
  let ?f2 = "[[''profile''] \<mapsto> Dir, [''out''] \<mapsto> Dir, [''out'', ''X''] \<mapsto> Dir]"
  let ?f4 = "[[''profile''] \<mapsto> Dir, [''out''] \<mapsto> Dir, [''out'', ''X''] \<mapsto> Dir, [''out'', ''X'', ''A.json''] \<mapsto> File []]"
  let ?doc = "''{'' @ json_str ''artifact_service'' @ '': '' @ json_str ''X''
                   @ '', '' @ json_str ''artifact_name'' @ '': '' @ json_str ''A''
                   @ '', '' @ json_str ''artifact_version'' @ '': '' @ json_str ''1''
                   @ '', '' @ json_str ''artifact_description'' @ '': '' @ json_str ''three records''
                   @ '', '' @ json_str ''result'' @ '': [{'' @ json_str ''id'' @ '': '' @ str_int 7 @ '', ''
                   @ json_str ''timestamp'' @ '': ''"
  have nA: "name unit_A = ''A''" "service unit_A = ''X''" by (simp_all add: unit_A_def)
  have d: "path_div [''out''] (sanitize_filename ''X'') = [''out'', ''X'']"
    "path_div [''out'', ''X''] (sanitize_filename ''A'' @ ''.json'') = [''out'', ''X'', ''A.json'']"
    by (simp_all add: path_div_def Path_def path_root_def sanitize_filename_def unsafe_char_def)
  have t: "truthy (PList (map PDict (result ?r)))" by simp
  have m: "mkdir (fs ?s) (path_div [''out''] (sanitize_filename (service unit_A))) True = Inr ?f2"
    by (simp add: nA d mkdir_def os_mkdir_def path_exists_def lookup_def is_root_def path_parent_def)
  have o: "open_xt ?f2 (path_div (path_div [''out''] (sanitize_filename (service unit_A)))
                        (sanitize_filename (name unit_A) @ ''.json'')) = Inr ?f4"
    by (simp add: nA d open_xt_def path_exists_def lookup_def is_root_def path_parent_def)
  have j: "json_emit (PDict (result_dict unit_A ?r)) = (?doc, False)"
    by (simp add: result_dict_def unit_A_def)
  show ?thesis
    by (simp add: process_result_write[OF result_dict_result t m o j] nA d)
qed

section \<open>The claims about main\<close>

text \<open>
  Claim C5, corrected. The claim: each of the three fatal conditions at startup aborts
  before a directory is made or a file is written. It fails for the duplicate artifact
  name: the plugins are loaded when the
  orchestrator is built, after the output folder and the log file were made. What
  holds: a profile path that is no directory and an output folder that exists abort
  with the world as it was, but for the banner printed; a duplicate name aborts with
  the output folder and the empty log file made, nothing logged.
\<close>

theorem startup_checks:
  "(\<not> is_dir (fs (io w)) (Path a0) \<longrightarrow>
      main sanitize plugin_modules order (a0 # a1 # rest) w
        = (Some NotADirectoryError, w\<lparr>io := print Banner (io w)\<rparr>))
   \<and> (is_dir (fs (io w)) (Path a0) \<and> path_exists (fs (io w)) (Path a1) \<longrightarrow>
      main sanitize plugin_modules order (a0 # a1 # rest) w
        = (Some FileExistsError, w\<lparr>io := print Banner (io w)\<rparr>))
   \<and> (is_dir (fs (io w)) (Path a0) \<and> \<not> path_exists (fs (io w)) (Path a1)
      \<and> mkdir_parents (fs (io w)) (Path a1) False = Inr f2
      \<and> open_xt f2 (path_div (Path a1) (''log_'' @ compact (timeline (io w) (ticks (io w))) @ ''.log'')) = Inr f3
      \<and> PluginLoader plugin_modules = Inl DuplicateArtifactName \<longrightarrow>
      main sanitize plugin_modules order (a0 # a1 # rest) w
        = (Some DuplicateArtifactName, w\<lparr>io := (print Banner (io w))\<lparr>fs := f3, ticks := Suc (ticks (io w))\<rparr>\<rparr>)
      \<and> \<not> is_dir (fs (io w)) (Path a1)
      \<and> is_dir f3 (Path a1)
      \<and> fs (io w) (path_div (Path a1) (''log_'' @ compact (timeline (io w) (ticks (io w))) @ ''.log'')) = None
      \<and> f3 (path_div (Path a1) (''log_'' @ compact (timeline (io w) (ticks (io w))) @ ''.log'')) = Some (File []))"
proof (intro conjI impI)
  assume "\<not> is_dir (fs (io w)) (Path a0)"
  then show "main sanitize plugin_modules order (a0 # a1 # rest) w
        = (Some NotADirectoryError, w\<lparr>io := print Banner (io w)\<rparr>)"
    by (simp add: main_def main_startup_no_profile)
next
  assume "is_dir (fs (io w)) (Path a0) \<and> path_exists (fs (io w)) (Path a1)"
  then show "main sanitize plugin_modules order (a0 # a1 # rest) w
        = (Some FileExistsError, w\<lparr>io := print Banner (io w)\<rparr>)"
    by (simp add: main_def main_startup_output_exists)
next
  let ?lp = "path_div (Path a1) (''log_'' @ compact (timeline (io w) (ticks (io w))) @ ''.log'')"
  assume a: "is_dir (fs (io w)) (Path a0) \<and> \<not> path_exists (fs (io w)) (Path a1)
      \<and> mkdir_parents (fs (io w)) (Path a1) False = Inr f2
      \<and> open_xt f2 ?lp = Inr f3
      \<and> PluginLoader plugin_modules = Inl DuplicateArtifactName"
  then show "main sanitize plugin_modules order (a0 # a1 # rest) w
        = (Some DuplicateArtifactName, w\<lparr>io := (print Banner (io w))\<lparr>fs := f3, ticks := Suc (ticks (io w))\<rparr>\<rparr>)"
    by (simp add: main_def main_startup_duplicate)
  show "\<not> is_dir (fs (io w)) (Path a1)"
    using a by (auto simp: is_dir_def path_exists_def)
  have d2: "is_dir f2 (Path a1)" using a mkdir_parents_is_dir by blast
  have f3: "f2 ?lp = None" "f3 = f2(?lp \<mapsto> File [])" using a open_xt_Inr by blast+
  have "f2 (Path a1) = Some Dir"
    using d2 a by (auto simp: is_dir_def path_exists_def lookup_def split: if_splits)
  then show "is_dir f3 (Path a1)"
    using f3 d2 by (auto simp: is_dir_def lookup_def)
  show "fs (io w) ?lp = None"
  proof (cases "fs (io w) ?lp")
    case None then show ?thesis .
  next
    case (Some n)
    then have "f2 ?lp = Some n" using a mkdir_parents_keeps by blast
    then show ?thesis using f3(1) by simp
  qed
  show "f3 ?lp = Some (File [])" using f3(2) by simp
qed

theorem startup_checks_witness:
  "main sanitize_filename [] [] [''missing'', ''out''] sample_world
     = (Some NotADirectoryError, sample_world\<lparr>io := print Banner (io sample_world)\<rparr>)
   \<and> main sanitize_filename [] [] [''profile'', ''profile''] sample_world
     = (Some FileExistsError, sample_world\<lparr>io := print Banner (io sample_world)\<rparr>)
   \<and> fst (main sanitize_filename [(sample_module, [unit_A, unit_A])] [] [''profile'', ''out''] sample_world)
     = Some DuplicateArtifactName
   \<and> is_dir ([[''profile''] \<mapsto> Dir, [''out''] \<mapsto> Dir, [''out'', ''log_20260101_120000.log''] \<mapsto> File []]) (Path ''out'')"
proof -
  have p: "Path ''profile'' = [''profile'']" "Path ''out'' = [''out'']" "Path ''missing'' = [''missing'']"
    by (simp_all add: Path_def path_root_def)
  have fs0: "fs (io sample_world) = [[''profile''] \<mapsto> Dir]"
    by (simp add: sample_world_def sample_io_def)
  have a1: "\<not> is_dir (fs (io sample_world)) (Path ''missing'')"
    by (simp add: p fs0 is_dir_def lookup_def is_root_def)
  have b1: "is_dir (fs (io sample_world)) (Path ''profile'') \<and> path_exists (fs (io sample_world)) (Path ''profile'')"
    by (simp add: p fs0 is_dir_def path_exists_def lookup_def is_root_def)
  have c1: "is_dir (fs (io sample_world)) (Path ''profile'') \<and> \<not> path_exists (fs (io sample_world)) (Path ''out'')
      \<and> mkdir_parents (fs (io sample_world)) (Path ''out'') False = Inr [[''profile''] \<mapsto> Dir, [''out''] \<mapsto> Dir]
      \<and> open_xt [[''profile''] \<mapsto> Dir, [''out''] \<mapsto> Dir]
           (path_div (Path ''out'') (''log_'' @ compact (timeline (io sample_world) (ticks (io sample_world))) @ ''.log''))
          = Inr [[''profile''] \<mapsto> Dir, [''out''] \<mapsto> Dir, [''out'', ''log_20260101_120000.log''] \<mapsto> File []]
      \<and> PluginLoader [(sample_module, [unit_A, unit_A])] = Inl DuplicateArtifactName"
    by (simp add: p fs0 is_dir_def path_exists_def lookup_def is_root_def sample_mkdir_out
        sample_world_def sample_io_def frozen_clock_def open_xt_def path_div_def Path_def path_root_def
        path_parent_def PluginLoader_def)
  show ?thesis
    using startup_checks[where w = sample_world and ?a0.0 = "''missing''" and ?a1.0 = "''out''"
            and sanitize = sanitize_filename and plugin_modules = "[]" and order = "[]" and rest = "[]"] a1
      startup_checks[where w = sample_world and ?a0.0 = "''profile''" and ?a1.0 = "''profile''"
            and sanitize = sanitize_filename and plugin_modules = "[]" and order = "[]" and rest = "[]"] b1
      startup_checks[where w = sample_world and ?a0.0 = "''profile''" and ?a1.0 = "''out''"
            and sanitize = sanitize_filename and plugin_modules = "[(sample_module, [unit_A, unit_A])]"
            and order = "[]" and rest = "[]"
            and ?f2.0 = "[[''profile''] \<mapsto> Dir, [''out''] \<mapsto> Dir]"
            and ?f3.0 = "[[''profile''] \<mapsto> Dir, [''out''] \<mapsto> Dir, [''out'', ''log_20260101_120000.log''] \<mapsto> File []]"] c1
    by simp
qed

theorem startup_duplicate_counterexample:
  "fst (main sanitize_filename [(sample_module, [unit_A, unit_A])] [] [''profile'', ''out''] sample_world)
     = Some DuplicateArtifactName
   \<and> fs (io sample_world) [''out''] = None
   \<and> fs (io (snd (main sanitize_filename [(sample_module, [unit_A, unit_A])] [] [''profile'', ''out''] sample_world)))
        [''out''] = Some Dir
   \<and> fs (io (snd (main sanitize_filename [(sample_module, [unit_A, unit_A])] [] [''profile'', ''out''] sample_world)))
        [''out'', ''log_20260101_120000.log''] = Some (File [])"
  by (simp add: main_def main_startup_def sample_world_def sample_io_def Path_def path_root_def print_def
      is_dir_def path_exists_def lookup_def is_root_def sample_mkdir_out now_def frozen_clock_def
      SimpleLog_init_def open_xt_def path_div_def path_parent_def MisterSkinnylegs_init_def
      PluginLoader_def Let_def)

text \<open>
  Claim C7, corrected. The claim: for every result taken from \<open>run_all\<close>, an empty
  one writes no file and is logged as skipped, a non-empty one writes exactly one file,
  named after the sanitized artifact name, in the directory of the sanitized service,
  holding the serialized document. The second half fails when the file is already
  there (two names with one sanitized form; the
  second result is not empty and no file is written for it, the run ends with
  \<open>FileExistsError\<close>). What holds: an empty result changes no file and logs the two
  lines; a non-empty one, when the service directory is there or can be made, the file
  is not there yet and the document can be serialized, adds that one file with the
  document (and the service directory, if it was missing).
\<close>

theorem report_written_or_skipped:
  "(result r = [] \<longrightarrow>
      process_result sanitize out (spec, result_dict spec r) s
        = (None, log_message (name spec @ '' had not results, skipping'')
                   (log_message (''Results acquired for '' @ name spec) s))
      \<and> fs (snd (process_result sanitize out (spec, result_dict spec r) s)) = fs s)
   \<and> (result r \<noteq> []
      \<and> mkdir (fs s) (path_div out (sanitize (service spec))) True = Inr f2
      \<and> open_xt f2 (path_div (path_div out (sanitize (service spec))) (sanitize (name spec) @ ''.json'')) = Inr f4
      \<and> json_emit (PDict (result_dict spec r)) = (doc, True) \<longrightarrow>
      fst (process_result sanitize out (spec, result_dict spec r) s) = None
      \<and> fs (snd (process_result sanitize out (spec, result_dict spec r) s))
          = f2(path_div (path_div out (sanitize (service spec))) (sanitize (name spec) @ ''.json'') \<mapsto> File doc)
      \<and> (f2 = fs s \<or> f2 = (fs s)(path_div out (sanitize (service spec)) \<mapsto> Dir))
      \<and> fs s (path_div (path_div out (sanitize (service spec))) (sanitize (name spec) @ ''.json'')) = None)"
proof (intro conjI impI)
  assume e: "result r = []"
  have "\<not> truthy (PList (map PDict (result r)))" using e by simp
  from process_result_skip[OF result_dict_result this]
  show "process_result sanitize out (spec, result_dict spec r) s
        = (None, log_message (name spec @ '' had not results, skipping'')
                   (log_message (''Results acquired for '' @ name spec) s))" .
  then show "fs (snd (process_result sanitize out (spec, result_dict spec r) s)) = fs s" by simp
next
  let ?d = "path_div out (sanitize (service spec))"
  let ?t = "path_div ?d (sanitize (name spec) @ ''.json'')"
  assume a: "result r \<noteq> [] \<and> mkdir (fs s) ?d True = Inr f2 \<and> open_xt f2 ?t = Inr f4
      \<and> json_emit (PDict (result_dict spec r)) = (doc, True)"
  have t: "truthy (PList (map PDict (result r)))" using a by simp
  have m: "mkdir (fs s) ?d True = Inr f2" and o: "open_xt f2 ?t = Inr f4"
    and j: "json_emit (PDict (result_dict spec r)) = (doc, True)" using a by simp_all
  note w = process_result_write[OF result_dict_result t m o j]
  show "fst (process_result sanitize out (spec, result_dict spec r) s) = None"
    by (simp add: w)
  show "fs (snd (process_result sanitize out (spec, result_dict spec r) s)) = f2(?t \<mapsto> File doc)"
    by (simp add: w)
  show "f2 = fs s \<or> f2 = (fs s)(?d \<mapsto> Dir)"
    using mkdir_Inr[OF m] by auto
  have n: "f2 ?t = None" using open_xt_Inr[OF o] by simp
  show "fs s ?t = None"
  proof (cases "fs s ?t")
    case None then show ?thesis .
  next
    case (Some x)
    then have "f2 ?t = Some x" using mkdir_keeps[OF m] by simp
    then show ?thesis using n by simp
  qed
qed

theorem report_written_or_skipped_witness:
  "process_result sanitize_filename [''out''] (unit_B, result_dict unit_B (ArtifactResult [])) sample_io
     = (None, log_message ''B had not results, skipping'' (log_message ''Results acquired for B'' sample_io))
   \<and> fs (snd (process_result sanitize_filename [''out''] (unit_B, result_dict unit_B (ArtifactResult [])) sample_io))
     = [[''profile''] \<mapsto> Dir]
   \<and> fst (process_result sanitize_filename [''out'']
            (unit_A, result_dict unit_A (ArtifactResult [[(''n'', PInt 1)], [(''n'', PInt 2)], [(''n'', PInt 3)]]))
            (sample_io\<lparr>fs := [[''profile''] \<mapsto> Dir, [''out''] \<mapsto> Dir]\<rparr>)) = None
   \<and> fs (snd (process_result sanitize_filename [''out'']
            (unit_A, result_dict unit_A (ArtifactResult [[(''n'', PInt 1)], [(''n'', PInt 2)], [(''n'', PInt 3)]]))
            (sample_io\<lparr>fs := [[''profile''] \<mapsto> Dir, [''out''] \<mapsto> Dir]\<rparr>)))
     = [[''profile''] \<mapsto> Dir, [''out''] \<mapsto> Dir, [''out'', ''X''] \<mapsto> Dir,
        [''out'', ''X'', ''A.json''] \<mapsto>
          File (fst (json_emit (PDict (result_dict unit_A
                  (ArtifactResult [[(''n'', PInt 1)], [(''n'', PInt 2)], [(''n'', PInt 3)]])))))]"
proof -
  let ?rA = "ArtifactResult [[(''n'', PInt 1)], [(''n'', PInt 2)], [(''n'', PInt 3)]]"
  let ?s = "sample_io\<lparr>fs := [[''profile''] \<mapsto> Dir, [''out''] \<mapsto> Dir]\<rparr>"
  let ?f2 = "[[''profile''] \<mapsto> Dir, [''out''] \<mapsto> Dir, [''out'', ''X''] \<mapsto> Dir]"
  let ?f4 = "[[''profile''] \<mapsto> Dir, [''out''] \<mapsto> Dir, [''out'', ''X''] \<mapsto> Dir, [''out'', ''X'', ''A.json''] \<mapsto> File []]"
  let ?doc = "fst (json_emit (PDict (result_dict unit_A ?rA)))"
  have nB: "name unit_B = ''B''" "service unit_B = ''Y''" by (simp_all add: unit_B_def)
  have nA: "name unit_A = ''A''" "service unit_A = ''X''" by (simp_all add: unit_A_def)
  have e: "result (ArtifactResult []) = []" by simp
  have j: "snd (json_emit (PDict (result_dict unit_A ?rA)))"
    by (simp add: result_dict_def unit_A_def json_str_def json_escape_char_def str_int_def)
  have d: "path_div [''out''] (sanitize_filename ''X'') = [''out'', ''X'']"
    "path_div [''out'', ''X''] (sanitize_filename ''A'' @ ''.json'') = [''out'', ''X'', ''A.json'']"
    by (simp_all add: path_div_def Path_def path_root_def sanitize_filename_def unsafe_char_def)
  have h: "result ?rA \<noteq> []
      \<and> mkdir (fs ?s) (path_div [''out''] (sanitize_filename (service unit_A))) True = Inr ?f2
      \<and> open_xt ?f2 (path_div (path_div [''out''] (sanitize_filename (service unit_A)))
                        (sanitize_filename (name unit_A) @ ''.json'')) = Inr ?f4
      \<and> json_emit (PDict (result_dict unit_A ?rA)) = (?doc, True)"
    using j
    by (simp add: nA d mkdir_def os_mkdir_def open_xt_def path_exists_def lookup_def is_root_def
        path_parent_def prod_eq_iff)
  show ?thesis
    using report_written_or_skipped[where r = "ArtifactResult []" and spec = unit_B and s = sample_io
            and sanitize = sanitize_filename and out = "[''out'']"] e
      report_written_or_skipped[where r = ?rA and spec = unit_A and s = ?s
            and sanitize = sanitize_filename and out = "[''out'']" and ?f2.0 = ?f2 and ?f4.0 = ?f4
            and doc = ?doc] h
    by (simp add: nA nB d sample_io_def)
qed

theorem report_collision_counterexample:
  "fst (main sanitize_filename [(sample_module, [unit_D, unit_E])] [0, 1] [''profile'', ''out''] sample_world)
     = Some FileExistsError
   \<and> fs (io (snd (main sanitize_filename [(sample_module, [unit_D, unit_E])] [0, 1] [''profile'', ''out''] sample_world)))
        [''out'', ''X'', ''Chat_Info.json'']
     = Some (File (fst (json_emit (PDict (result_dict unit_D (ArtifactResult [[(''n'', PInt 1)]]))))))
   \<and> fst (run_all (sample_ms [unit_D, unit_E]) [0, 1] sample_world)
     = ([(unit_D, result_dict unit_D (ArtifactResult [[(''n'', PInt 1)]])),
         (unit_E, result_dict unit_E (ArtifactResult [[(''n'', PInt 2)]]))], None)"
  apply (simp add: main_def sample_world_def sample_startup unit_D_def unit_E_def)
  apply (simp add: main_report_def main_opening_def
      run_all_def run_artifact_def artifacts_def sample_ms_def
      returning_def ChromiumProfileFolder_enter_def ChromiumProfileFolder_exit_def
      process_result_def result_dict_def dict_getitem_def Let_def log_message_def now_def print_def
      frozen_clock_def sanitize_filename_def unsafe_char_def path_div_def Path_def path_root_def
      mkdir_def os_mkdir_def open_xt_def path_exists_def is_dir_def lookup_def is_root_def path_parent_def
      profile_folder_def path_str_def path_name_def sample_module_def version_string_def
      indent_newlines_def json_str_def json_escape_char_def str_int_def opened_count_def)
  done

text \<open>
  Claim C9, confirmed. The log file and the report files are opened for exclusive
  creation: when the path exists, \<open>SimpleLog\<close> fails with \<open>FileExistsError\<close>,
  and so does the loop body, leaving the file system as the directory step left it. No
  step of the loop body, and no run of \<open>main\<close>, changes what the file system held
  before (\<open>order\<close> names tasks of the catalog).
\<close>

theorem never_overwrites:
  assumes "\<forall>i\<in>set order. i < length (concat (map snd plugin_modules))"
  shows "(path_exists (fs s) p \<longrightarrow> SimpleLog_init p s = Inl FileExistsError)
   \<and> (dict_getitem res ''result'' = Inr v \<and> truthy v
      \<and> mkdir (fs s) (path_div out (sanitize (service spec))) True = Inr f2
      \<and> path_exists f2 (path_div (path_div out (sanitize (service spec))) (sanitize (name spec) @ ''.json'')) \<longrightarrow>
        fst (process_result sanitize out (spec, res) s) = Some FileExistsError
        \<and> fs (snd (process_result sanitize out (spec, res) s)) = f2)
   \<and> (fs s q = Some n \<longrightarrow> fs (snd (process_result sanitize out (spec, res) s)) q = Some n)
   \<and> (fs (io w) q = Some n \<longrightarrow> fs (io (snd (main sanitize plugin_modules order args w))) q = Some n)"
  using SimpleLog_init_exists process_result_keeps main_keeps[OF assms]
  by (auto simp: process_result_target_exists)

theorem never_overwrites_witness:
  "SimpleLog_init [''profile''] sample_io = Inl FileExistsError
   \<and> fst (process_result sanitize_filename [''out'']
            (unit_A, result_dict unit_A (ArtifactResult [[(''n'', PInt 1)]]))
            (sample_io\<lparr>fs := [[''out''] \<mapsto> Dir, [''out'', ''X''] \<mapsto> Dir, [''out'', ''X'', ''A.json''] \<mapsto> File ''old'']\<rparr>))
       = Some FileExistsError
   \<and> fs (snd (process_result sanitize_filename [''out'']
            (unit_A, result_dict unit_A (ArtifactResult [[(''n'', PInt 1)]]))
            (sample_io\<lparr>fs := [[''out''] \<mapsto> Dir, [''out'', ''X''] \<mapsto> Dir, [''out'', ''X'', ''A.json''] \<mapsto> File ''old'']\<rparr>)))
         [''out'', ''X'', ''A.json'']
       = Some (File ''old'')
   \<and> fs (io (snd (main sanitize_filename [(sample_module, [unit_A, unit_B])] [1, 0] [''profile'', ''out''] sample_world)))
         [''profile'']
       = Some Dir"
proof -
  let ?f = "[[''out''] \<mapsto> Dir, [''out'', ''X''] \<mapsto> Dir, [''out'', ''X'', ''A.json''] \<mapsto> File ''old'']"
  let ?s = "sample_io\<lparr>fs := ?f\<rparr>"
  let ?r = "ArtifactResult [[(''n'', PInt 1)]]"
  have nA: "name unit_A = ''A''" "service unit_A = ''X''" by (simp_all add: unit_A_def)
  have d: "path_div [''out''] (sanitize_filename ''X'') = [''out'', ''X'']"
    "path_div [''out'', ''X''] (sanitize_filename ''A'' @ ''.json'') = [''out'', ''X'', ''A.json'']"
    by (simp_all add: path_div_def Path_def path_root_def sanitize_filename_def unsafe_char_def)
  have h0: "\<forall>i\<in>set [1, 0]. i < length (concat (map snd [(sample_module, [unit_A, unit_B])]))"
    by simp
  have h1: "path_exists (fs sample_io) [''profile'']"
    by (simp add: sample_io_def path_exists_def lookup_def)
  have h2: "dict_getitem (result_dict unit_A ?r) ''result'' = Inr (PList (map PDict (result ?r)))
      \<and> truthy (PList (map PDict (result ?r)))
      \<and> mkdir (fs ?s) (path_div [''out''] (sanitize_filename (service unit_A))) True = Inr ?f
      \<and> path_exists ?f (path_div (path_div [''out''] (sanitize_filename (service unit_A)))
                          (sanitize_filename (name unit_A) @ ''.json''))"
    by (simp add: result_dict_result nA d mkdir_def os_mkdir_def path_exists_def is_dir_def lookup_def is_root_def)
  have h3: "fs ?s [''out'', ''X'', ''A.json''] = Some (File ''old'')" by simp
  have h4: "fs (io sample_world) [''profile''] = Some Dir"
    by (simp add: sample_world_def sample_io_def)
  note t = never_overwrites[OF h0, where s = sample_io and p = "[''profile'']"]
  note u = never_overwrites[OF h0, where s = ?s and res = "result_dict unit_A ?r" and spec = unit_A
      and v = "PList (map PDict (result ?r))" and out = "[''out'']" and sanitize = sanitize_filename
      and ?f2.0 = ?f and q = "[''out'', ''X'', ''A.json'']" and n = "File ''old''"]
  note v = never_overwrites[OF h0, where w = sample_world and q = "[''profile'']" and n = Dir
      and sanitize = sanitize_filename and args = "[''profile'', ''out'']"]
  have 1: "SimpleLog_init [''profile''] sample_io = Inl FileExistsError" using t h1 by blast
  have 2: "fst (process_result sanitize_filename [''out''] (unit_A, result_dict unit_A ?r) ?s) = Some FileExistsError"
    using u h2 by blast
  have 3: "fs (snd (process_result sanitize_filename [''out''] (unit_A, result_dict unit_A ?r) ?s))
             [''out'', ''X'', ''A.json''] = Some (File ''old'')"
    using u h3 by blast
  have 4: "fs (io (snd (main sanitize_filename [(sample_module, [unit_A, unit_B])] [1, 0] [''profile'', ''out''] sample_world)))
         [''profile''] = Some Dir"
    using v h4 by blast
  show ?thesis using 1 2 3 4 by blast
qed

section \<open>The Google Drive plugin: sorted results\<close>

lemma keyed_Inr:
  "keyed k rs = Inr kds \<Longrightarrow> map snd kds = rs \<and> map (datetime_key k) rs = map (\<lambda>kd. Inr (fst kd)) kds"
  by (induction rs arbitrary: kds) (auto split: sum.splits)

lemma keyed_total:
  "\<forall>d\<in>set rs. \<exists>t. datetime_key k d = Inr t \<Longrightarrow> \<exists>kds. keyed k rs = Inr kds"
  by (induction rs) (auto split: sum.splits)

lemma list_sort_sorted:
  assumes "list_sort k rs = Inr out"
  shows "\<exists>ts. map (datetime_key k) out = map Inr ts \<and> sorted ts \<and> mset out = mset rs"
proof -
  obtain kds where kds: "keyed k rs = Inr kds" and out: "out = map snd (sort_key fst kds)"
    using assms by (auto simp: list_sort_def split: sum.splits)
  have each: "\<forall>kd\<in>set kds. datetime_key k (snd kd) = Inr (fst kd)"
  proof
    fix kd assume "kd \<in> set kds"
    then obtain i where i: "i < length kds" "kd = kds ! i" by (auto simp: in_set_conv_nth)
    have m: "map (datetime_key k) (map snd kds) = map (\<lambda>kd. Inr (fst kd)) kds"
      using keyed_Inr[OF kds] by simp
    have "map (datetime_key k) (map snd kds) ! i = map (\<lambda>kd. Inr (fst kd)) kds ! i"
      by (simp only: m)
    then show "datetime_key k (snd kd) = Inr (fst kd)" using i by simp
  qed
  have "map (datetime_key k) out = map Inr (map fst (sort_key fst kds))"
    unfolding out using each by (auto simp: comp_def)
  moreover have "sorted (map fst (sort_key fst kds))" by (rule sorted_sort_key)
  moreover have "mset out = mset rs"
    using keyed_Inr[OF kds] unfolding out by (metis mset_map mset_sort)
  ultimately show ?thesis by blast
qed

lemma listing_record_key:
  "datetime_key ''timestamp'' (listing_record h ty) = Inr (visit_time h)"
  by (simp add: datetime_key_def listing_record_def)

lemma listing_entry_key:
  "d \<in> set (listing_entry h) \<Longrightarrow> \<exists>t. datetime_key ''timestamp'' d = Inr t"
  by (auto simp: listing_entry_def listing_record_key split: if_splits option.splits)

lemma folders_and_files_returns:
  "\<exists>rs. outcome (folders_and_files (ArgProfile h) log_func storage) = Inr (ArtifactResult rs)"
proof -
  let ?results = "concat (map listing_entry
                   (filter (\<lambda>r. matches_file_listing_pattern (url r)) (history (contents h))))"
  have "\<forall>d\<in>set ?results. \<exists>t. datetime_key ''timestamp'' d = Inr t"
    by (auto dest: listing_entry_key)
  from keyed_total[OF this] obtain kds where "keyed ''timestamp'' ?results = Inr kds" by blast
  then show ?thesis by (simp add: folders_and_files_def list_sort_def Let_def)
qed

lemma folders_and_files_sorted:
  assumes "outcome (folders_and_files profile log_func storage) = Inr (ArtifactResult rs)"
  shows "\<exists>ts. map (datetime_key ''timestamp'') rs = map Inr ts \<and> sorted ts"
proof -
  obtain rs0 where "list_sort ''timestamp'' rs0 = Inr rs"
    using assms by (auto simp: folders_and_files_def Let_def split: pyarg.splits sum.splits)
  from list_sort_sorted[OF this] show ?thesis by blast
qed

lemma thumbnails_sorted:
  assumes "outcome (thumbnails profile log_func storage) = Inr (ArtifactResult rs)"
  shows "\<exists>ts. map (datetime_key ''cache request time'') rs = map Inr ts \<and> sorted ts"
proof -
  obtain rs0 where "list_sort ''cache request time'' rs0 = Inr rs"
    using assms
    by (auto simp: thumbnails_def thumbnails_run_def Let_def split: pyarg.splits sum.splits prod.splits)
  from list_sort_sorted[OF this] show ?thesis by blast
qed

lemma timeline_usage_sorted:
  assumes "outcome (timeline_usage profile log_func storage) = Inr (ArtifactResult rs)"
  shows "\<exists>ts. map (datetime_key ''timestamp'') rs = map Inr ts \<and> sorted ts"
proof -
  obtain rs0 where "list_sort ''timestamp'' rs0 = Inr rs"
    using assms by (auto simp: timeline_usage_def Let_def split: pyarg.splits sum.splits)
  from list_sort_sorted[OF this] show ?thesis by blast
qed

lemma sample_folders:
  "outcome (folders_and_files (ArgProfile \<lparr>handle_id = 0, contents = sample_profile\<rparr>) ArgLog (ArgStorage sample_storage))
   = Inr (ArtifactResult
            [[(''id'', PInt 2), (''type'', PStr ''Spreadsheets''), (''name'', PStr ''Budget''),
              (''url'', PStr ''https://docs.google.com/spreadsheets/d/xyz''),
              (''timestamp'', PDatetime 100)],
             [(''id'', PInt 1), (''type'', PStr ''Folder''), (''name'', PStr ''My Drive''),
              (''url'', PStr ''https://drive.google.com/drive/folders/abc''),
              (''timestamp'', PDatetime 300)]])"
  by code_simp

lemma sample_thumbnails:
  "outcome (thumbnails (ArgProfile \<lparr>handle_id = 0, contents = sample_profile\<rparr>) ArgLog (ArgStorage sample_storage))
   = Inr (ArtifactResult
       [[(''url'', PStr ''https://lh3.googleusercontent.com/fife/def=w64-h64''),
         (''cache request time'', PDatetime 60),
         (''cache response time'', PDatetime 61),
         (''extracted file reference'', PStr ''out/Google Drive/Google Drive Thumbnails/1_b.png'')],
        [(''url'', PStr ''https://lh3.googleusercontent.com/fife/abc=w200-h190''),
         (''cache request time'', PDatetime 70),
         (''cache response time'', PDatetime 71),
         (''extracted file reference'', PStr ''out/Google Drive/Google Drive Thumbnails/0_a.png'')]])"
  by code_simp

lemma sample_usage:
  "outcome (timeline_usage (ArgProfile \<lparr>handle_id = 0, contents = sample_profile\<rparr>) ArgLog (ArgStorage sample_storage))
   = Inr (ArtifactResult
            [[(''source'', PStr ''Session Storage''), (''id'', PInt 9),
              (''type'', PStr ''Tab first start''), (''timestamp'', PDatetime 1000000)],
             [(''source'', PStr ''Session Storage''), (''id'', PInt 7),
              (''type'', PStr ''Tab first start''), (''timestamp'', PDatetime 2000000)]])"
  by code_simp

text \<open>
  Claim C10, confirmed. Whenever \<open>folders_and_files\<close>, \<open>thumbnails\<close> or
  \<open>timeline_usage\<close> returns an \<open>ArtifactResult\<close>, the time keys of its records
  (\<open>timestamp\<close>, \<open>cache request time\<close>, \<open>timestamp\<close>) are timestamps in
  ascending order. \<open>folders_and_files\<close> always returns one when it is given a
  profile; the other two can raise before they sort.
\<close>

theorem google_drive_results_sorted:
  "(outcome (folders_and_files profile log_func storage) = Inr (ArtifactResult rs1) \<longrightarrow>
      (\<exists>ts. map (datetime_key ''timestamp'') rs1 = map Inr ts \<and> sorted ts))
   \<and> (outcome (thumbnails profile log_func storage) = Inr (ArtifactResult rs2) \<longrightarrow>
      (\<exists>ts. map (datetime_key ''cache request time'') rs2 = map Inr ts \<and> sorted ts))
   \<and> (outcome (timeline_usage profile log_func storage) = Inr (ArtifactResult rs3) \<longrightarrow>
      (\<exists>ts. map (datetime_key ''timestamp'') rs3 = map Inr ts \<and> sorted ts))
   \<and> (\<exists>rs. outcome (folders_and_files (ArgProfile h) log_func storage) = Inr (ArtifactResult rs))"
  using folders_and_files_sorted thumbnails_sorted timeline_usage_sorted folders_and_files_returns
  by blast

theorem google_drive_results_sorted_witness:
  "outcome (folders_and_files (ArgProfile \<lparr>handle_id = 0, contents = sample_profile\<rparr>) ArgLog (ArgStorage sample_storage))
     = Inr (ArtifactResult
            [[(''id'', PInt 2), (''type'', PStr ''Spreadsheets''), (''name'', PStr ''Budget''),
              (''url'', PStr ''https://docs.google.com/spreadsheets/d/xyz''),
              (''timestamp'', PDatetime 100)],
             [(''id'', PInt 1), (''type'', PStr ''Folder''), (''name'', PStr ''My Drive''),
              (''url'', PStr ''https://drive.google.com/drive/folders/abc''),
              (''timestamp'', PDatetime 300)]])
   \<and> (\<exists>ts. map (datetime_key ''timestamp'')
            [[(''id'', PInt 2), (''type'', PStr ''Spreadsheets''), (''name'', PStr ''Budget''),
              (''url'', PStr ''https://docs.google.com/spreadsheets/d/xyz''),
              (''timestamp'', PDatetime 100)],
             [(''id'', PInt 1), (''type'', PStr ''Folder''), (''name'', PStr ''My Drive''),
              (''url'', PStr ''https://drive.google.com/drive/folders/abc''),
              (''timestamp'', PDatetime 300)]] = map Inr ts \<and> sorted ts)
   \<and> outcome (thumbnails (ArgProfile \<lparr>handle_id = 0, contents = sample_profile\<rparr>) ArgLog (ArgStorage sample_storage))
     = Inr (ArtifactResult
       [[(''url'', PStr ''https://lh3.googleusercontent.com/fife/def=w64-h64''),
         (''cache request time'', PDatetime 60),
         (''cache response time'', PDatetime 61),
         (''extracted file reference'', PStr ''out/Google Drive/Google Drive Thumbnails/1_b.png'')],
        [(''url'', PStr ''https://lh3.googleusercontent.com/fife/abc=w200-h190''),
         (''cache request time'', PDatetime 70),
         (''cache response time'', PDatetime 71),
         (''extracted file reference'', PStr ''out/Google Drive/Google Drive Thumbnails/0_a.png'')]])
   \<and> (\<exists>ts. map (datetime_key ''cache request time'')
       [[(''url'', PStr ''https://lh3.googleusercontent.com/fife/def=w64-h64''),
         (''cache request time'', PDatetime 60),
         (''cache response time'', PDatetime 61),
         (''extracted file reference'', PStr ''out/Google Drive/Google Drive Thumbnails/1_b.png'')],
        [(''url'', PStr ''https://lh3.googleusercontent.com/fife/abc=w200-h190''),
         (''cache request time'', PDatetime 70),
         (''cache response time'', PDatetime 71),
         (''extracted file reference'', PStr ''out/Google Drive/Google Drive Thumbnails/0_a.png'')]]
        = map Inr ts \<and> sorted ts)
   \<and> outcome (timeline_usage (ArgProfile \<lparr>handle_id = 0, contents = sample_profile\<rparr>) ArgLog (ArgStorage sample_storage))
     = Inr (ArtifactResult
            [[(''source'', PStr ''Session Storage''), (''id'', PInt 9),
              (''type'', PStr ''Tab first start''), (''timestamp'', PDatetime 1000000)],
             [(''source'', PStr ''Session Storage''), (''id'', PInt 7),
              (''type'', PStr ''Tab first start''), (''timestamp'', PDatetime 2000000)]])
   \<and> (\<exists>ts. map (datetime_key ''timestamp'')
            [[(''source'', PStr ''Session Storage''), (''id'', PInt 9),
              (''type'', PStr ''Tab first start''), (''timestamp'', PDatetime 1000000)],
             [(''source'', PStr ''Session Storage''), (''id'', PInt 7),
              (''type'', PStr ''Tab first start''), (''timestamp'', PDatetime 2000000)]]
        = map Inr ts \<and> sorted ts)"
  using google_drive_results_sorted[where profile = "ArgProfile \<lparr>handle_id = 0, contents = sample_profile\<rparr>"
      and log_func = ArgLog and storage = "ArgStorage sample_storage"]
    sample_folders sample_thumbnails sample_usage
  by blast

end
